theory Spec2Isabelle
  imports Main "HOL-Library.Char_ord" "HOL-Library.List_Lexorder" "HOL-Library.Sublist"
    "HOL-Library.Multiset" "HOL-Library.Product_Lexorder"
begin

text \<open>
  Jotaku keeps notes in a local SQLite database and reconciles them with a per-user
  store on a server. This theory embeds the local store, the sync pass, its caller in
  the terminal model, the remote store and the note upsert handlers as functions on
  tables, and proves how they relate to the claims C1 to C10 of the specification.
\<close>

section \<open>Time\<close>

text \<open>
  A Go \<open>time.Time\<close> is modelled as the number of nanoseconds since the Unix epoch.
  \<open>time.Unix(sec, 0)\<close>, \<open>t.Unix()\<close> and \<open>t.After(u)\<close> are the three operations the
  code uses. SQLite's \<open>CURRENT_TIMESTAMP\<close> is the clock read in whole seconds.
  Every function that reads the clock takes the reading as its argument \<open>now\<close>.
\<close>

type_synonym time = int

definition time_Unix :: "int \<Rightarrow> time" where
  "time_Unix sec = sec * 1000000000"

definition Unix :: "time \<Rightarrow> int" where
  "Unix t = t div 1000000000"

definition After :: "time \<Rightarrow> time \<Rightarrow> bool" where
  "After t u = (u < t)"

definition CURRENT_TIMESTAMP :: "time \<Rightarrow> time" where
  "CURRENT_TIMESTAMP now = time_Unix (Unix now)"

section \<open>The local store (internal/db)\<close>

text \<open>
  The three tables of the local SQLite database, each a list of rows in rowid order.
  Nullable columns are options. The \<open>deleted\<close> column is a flag: every statement of the
  code reads NULL as 0 there. \<open>AUTOINCREMENT\<close> is the counter kept beside each table.
  The storage engine itself is taken not to fail: a statement either applies or, where
  the Go code turns an empty result into an error, returns that error.
\<close>

datatype SyncStatus = SyncStatusLocal | SyncStatusSynced | SyncStatusPending

record notes_row =
  n_id :: int
  n_title :: string
  n_content :: string
  n_tags :: "string option"
  n_password :: "string option"
  n_parent_folder_id :: "int option"
  n_created_at :: time
  n_updated_at :: time
  n_server_id :: "string option"
  n_sync_status :: SyncStatus
  n_deleted :: bool

record folders_row =
  f_id :: int
  f_title :: string
  f_password :: "string option"
  f_parent_folder_id :: "int option"
  f_created_at :: time
  f_updated_at :: time
  f_deleted :: bool

record note_versions_row =
  v_id :: int
  v_note_id :: int
  v_title :: string
  v_content :: string
  v_tags :: "string option"
  v_hash :: "string option"
  v_version_num :: int
  v_created_at :: time

record DB =
  t_notes :: "notes_row list"
  seq_notes :: int
  t_folders :: "folders_row list"
  seq_folders :: int
  t_note_versions :: "note_versions_row list"
  seq_note_versions :: int

text \<open>The Go struct \<open>Note\<close> of models.go, as the queries fill it.\<close>

record Note =
  ID :: int
  Title :: string
  Content :: string
  Tags :: "string list"
  CreatedAt :: time
  UpdatedAt :: time
  ServerID :: string
  Status :: SyncStatus
  Deleted :: bool
  ParentFolder :: int

text \<open>
  \<open>json.Marshal\<close> and \<open>json.Unmarshal\<close> on a \<open>[]string\<close> belong to Go's library:
  the functions below take them as the arguments \<open>marshal\<close> and \<open>unmarshal\<close>.
\<close>

type_synonym marshal = "string list \<Rightarrow> string"
type_synonym unmarshal = "string \<Rightarrow> string list"

subsection \<open>Notes\<close>

definition CreateNote :: "marshal \<Rightarrow> DB \<Rightarrow> time \<Rightarrow> string \<Rightarrow> string \<Rightarrow> string list \<Rightarrow> Note \<times> DB" where
  "CreateNote marshal db now ttl cnt tgs =
     (let tagsJSON = marshal tgs;
          new_id = seq_notes db + 1;
          row = \<lparr>n_id = new_id, n_title = ttl, n_content = cnt, n_tags = Some tagsJSON,
                 n_password = None, n_parent_folder_id = None, n_created_at = now, n_updated_at = now,
                 n_server_id = None, n_sync_status = SyncStatusPending, n_deleted = False\<rparr>
      in (\<lparr>ID = new_id, Title = ttl, Content = cnt, Tags = tgs, CreatedAt = now, UpdatedAt = now,
            ServerID = [], Status = SyncStatusPending, Deleted = False, ParentFolder = 0\<rparr>,
          db\<lparr>t_notes := t_notes db @ [row], seq_notes := new_id\<rparr>))"

definition CreateNoteInFolder ::
  "marshal \<Rightarrow> DB \<Rightarrow> time \<Rightarrow> string \<Rightarrow> string \<Rightarrow> string list \<Rightarrow> int \<Rightarrow> Note \<times> DB" where
  "CreateNoteInFolder marshal db now ttl cnt tgs folderID =
     (let tagsJSON = marshal tgs;
          parentID = (if folderID > 0 then Some folderID else None);
          new_id = seq_notes db + 1;
          row = \<lparr>n_id = new_id, n_title = ttl, n_content = cnt, n_tags = Some tagsJSON,
                 n_password = None, n_parent_folder_id = parentID, n_created_at = now, n_updated_at = now,
                 n_server_id = None, n_sync_status = SyncStatusPending, n_deleted = False\<rparr>
      in (\<lparr>ID = new_id, Title = ttl, Content = cnt, Tags = tgs, CreatedAt = now, UpdatedAt = now,
            ServerID = [], Status = SyncStatusPending, Deleted = False, ParentFolder = folderID\<rparr>,
          db\<lparr>t_notes := t_notes db @ [row], seq_notes := new_id\<rparr>))"

definition UpdateNote :: "marshal \<Rightarrow> DB \<Rightarrow> time \<Rightarrow> int \<Rightarrow> string \<Rightarrow> string \<Rightarrow> string list \<Rightarrow> DB" where
  "UpdateNote marshal db now i ttl cnt tgs =
     db\<lparr>t_notes := map (\<lambda>r. if n_id r = i
                            then r\<lparr>n_title := ttl, n_content := cnt, n_tags := Some (marshal tgs),
                                   n_updated_at := now, n_sync_status := SyncStatusPending\<rparr>
                            else r) (t_notes db)\<rparr>"

definition DeleteNote :: "DB \<Rightarrow> time \<Rightarrow> int \<Rightarrow> DB" where
  "DeleteNote db now i =
     db\<lparr>t_notes := map (\<lambda>r. if n_id r = i
                            then r\<lparr>n_deleted := True, n_sync_status := SyncStatusPending, n_updated_at := now\<rparr>
                            else r) (t_notes db)\<rparr>"

definition SetNotePassword :: "DB \<Rightarrow> time \<Rightarrow> int \<Rightarrow> string \<Rightarrow> DB" where
  "SetNotePassword db now noteID pw =
     db\<lparr>t_notes := map (\<lambda>r. if n_id r = noteID
                            then r\<lparr>n_password := Some pw, n_updated_at := CURRENT_TIMESTAMP now\<rparr>
                            else r) (t_notes db)\<rparr>"

subsection \<open>Folders\<close>

definition CreateFolder :: "DB \<Rightarrow> time \<Rightarrow> string \<Rightarrow> int \<Rightarrow> int \<times> DB" where
  "CreateFolder db now ttl parentID =
     (let new_id = seq_folders db + 1;
          row = \<lparr>f_id = new_id, f_title = ttl, f_password = None, f_parent_folder_id = Some parentID,
                 f_created_at = CURRENT_TIMESTAMP now, f_updated_at = CURRENT_TIMESTAMP now,
                 f_deleted = False\<rparr>
      in (new_id, db\<lparr>t_folders := t_folders db @ [row], seq_folders := new_id\<rparr>))"

definition SetFolderPassword :: "DB \<Rightarrow> time \<Rightarrow> int \<Rightarrow> string \<Rightarrow> DB" where
  "SetFolderPassword db now folderID pw =
     db\<lparr>t_folders := map (\<lambda>r. if f_id r = folderID
                              then r\<lparr>f_password := Some pw, f_updated_at := CURRENT_TIMESTAMP now\<rparr>
                              else r) (t_folders db)\<rparr>"

definition DeleteFolder :: "DB \<Rightarrow> time \<Rightarrow> int \<Rightarrow> DB" where
  "DeleteFolder db now i =
     db\<lparr>t_folders := map (\<lambda>r. if f_id r = i
                              then r\<lparr>f_deleted := True, f_updated_at := CURRENT_TIMESTAMP now\<rparr>
                              else r) (t_folders db)\<rparr>"

subsection \<open>Search\<close>

text \<open>
  \<open>SearchNotes\<close> leaves the matching to the \<open>LIKE\<close> of SQLite, as the database is
  opened: no \<open>case_sensitive_like\<close> pragma, no \<open>ESCAPE\<close> clause, the default limit on the
  length of a pattern. \<open>LIKE\<close> belongs to the database engine; what follows transcribes
  the engine's \<open>sqlite3Utf8Read\<close>, \<open>patternCompare\<close> and \<open>likeFunc\<close>.

  A Go string is a list of bytes, and so are the pattern and the text that reach the
  engine. The engine reads both as C strings, that is up to their first NUL byte, and
  compares them character by character. A character is what \<open>sqlite3Utf8Read\<close>
  returns: a byte below \<open>0xC0\<close> stands for itself; a byte from \<open>0xC0\<close> on starts a
  character, whose first bits are looked up in \<open>sqlite3Utf8Trans1\<close> and which takes in
  every continuation byte (\<open>0x80\<close> to \<open>0xBF\<close>) that follows, six bits each, in a 32-bit
  unsigned integer; a result below \<open>0x80\<close>, a surrogate, \<open>0xFFFE\<close> and \<open>0xFFFF\<close> read as
  \<open>0xFFFD\<close>.
\<close>

definition c_string :: "string \<Rightarrow> string" where
  "c_string z = takeWhile (\<lambda>b. b \<noteq> CHR 0x00) z"

text \<open>The table \<open>sqlite3Utf8Trans1\<close>, by the lead byte (from \<open>0xC0\<close> to \<open>0xFF\<close>).\<close>

definition sqlite3Utf8Trans1 :: "nat \<Rightarrow> nat" where
  "sqlite3Utf8Trans1 c =
     (if c < 0xE0 then c mod 32
      else if c < 0xF0 then c mod 16
      else if c < 0xF8 then c mod 8
      else if c < 0xFC then c mod 4
      else if c < 0xFE then c mod 2
      else 0)"

definition utf8_replace :: "nat \<Rightarrow> nat" where
  "utf8_replace c = (if c < 0x80 \<or> c div 2048 = 27 \<or> c div 2 = 32767 then 0xFFFD else c)"

text \<open>
  The characters of a byte string, as successive calls of \<open>sqlite3Utf8Read\<close> return them.
  The first argument is the character under assembly after a lead byte, if there is one.
\<close>

function (sequential) utf8_read :: "nat option \<Rightarrow> string \<Rightarrow> nat list" where
  "utf8_read None [] = []"
| "utf8_read (Some c) [] = [utf8_replace c]"
| "utf8_read None (b # z) =
     (if of_char b \<ge> (0xC0 :: nat) then utf8_read (Some (sqlite3Utf8Trans1 (of_char b))) z
      else of_char b # utf8_read None z)"
| "utf8_read (Some c) (b # z) =
     (if (0x80 :: nat) \<le> of_char b \<and> of_char b < (0xC0 :: nat)
      then utf8_read (Some ((c * 64 + of_char b mod 64) mod 2 ^ 32)) z
      else utf8_replace c # utf8_read None (b # z))"
  by pat_completeness auto

termination utf8_read
  by (relation "measure (\<lambda>(acc, z). 2 * length z + (case acc of None \<Rightarrow> 0 | Some c \<Rightarrow> 1))")
     auto

definition sqlite3Tolower :: "nat \<Rightarrow> nat" where
  "sqlite3Tolower c = (if 65 \<le> c \<and> c \<le> 90 then c + 32 else c)"

text \<open>
  \<open>patternCompare\<close> for \<open>LIKE\<close>, on the characters of pattern and text: \<open>%\<close> (37)
  matches any run of characters, \<open>_\<close> (95) matches any one character, and every other
  character matches itself, and below \<open>0x80\<close> also the same letter in the other case.
\<close>

fun patternCompare :: "nat list \<Rightarrow> nat list \<Rightarrow> bool" where
  "patternCompare [] [] = True"
| "patternCompare [] (c2 # zString) = False"
| "patternCompare (c # zPattern) [] = (c = 37 \<and> patternCompare zPattern [])"
| "patternCompare (c # zPattern) (c2 # zString) =
     (if c = 37
      then patternCompare zPattern (c2 # zString) \<or> patternCompare (c # zPattern) zString
      else (c = c2 \<or> (sqlite3Tolower c = sqlite3Tolower c2 \<and> c < 0x80 \<and> c2 < 0x80) \<or> c = 95)
           \<and> patternCompare zPattern zString)"

definition LIKE :: "string \<Rightarrow> string \<Rightarrow> bool" where
  "LIKE zB zA = patternCompare (utf8_read None (c_string zB)) (utf8_read None (c_string zA))"

text \<open>
  \<open>likeFunc\<close>: a pattern of more than \<open>SQLITE_MAX_LIKE_PATTERN_LENGTH\<close> bytes, NUL or not,
  is an error, whatever the text; a NULL text gives NULL, which a WHERE clause does not
  take for true.
\<close>

datatype sql_error = ErrLikePatternTooComplex

definition SQLITE_MAX_LIKE_PATTERN_LENGTH :: nat where
  "SQLITE_MAX_LIKE_PATTERN_LENGTH = 50000"

definition likeFunc :: "string \<Rightarrow> string option \<Rightarrow> sql_error + bool" where
  "likeFunc zB zA =
     (if length zB > SQLITE_MAX_LIKE_PATTERN_LENGTH then Inl ErrLikePatternTooComplex
      else Inr (case zA of None \<Rightarrow> False | Some t \<Rightarrow> LIKE zB t))"

text \<open>
  \<open>AND\<close> and \<open>OR\<close> as the engine evaluates them in a WHERE clause: from left to right,
  stopping at the first operand that decides, so that an error in a later operand is
  met only when the earlier ones leave the matter open.
\<close>

fun sql_AND :: "(sql_error + bool) list \<Rightarrow> sql_error + bool" where
  "sql_AND [] = Inr True"
| "sql_AND (c # conditions) =
     (case c of Inl e \<Rightarrow> Inl e | Inr b \<Rightarrow> if b then sql_AND conditions else Inr False)"

definition sql_OR :: "sql_error + bool \<Rightarrow> sql_error + bool \<Rightarrow> sql_error + bool" where
  "sql_OR a b = (case a of Inl e \<Rightarrow> Inl e | Inr x \<Rightarrow> if x then Inr True else b)"

record NoteListItem =
  item_ID :: int
  item_Title :: string
  item_UpdatedAt :: time
  item_SyncStatus :: SyncStatus
  item_Type :: string

definition scan_NoteListItem :: "notes_row \<Rightarrow> NoteListItem" where
  "scan_NoteListItem r =
     \<lparr>item_ID = n_id r, item_Title = n_title r, item_UpdatedAt = n_updated_at r,
      item_SyncStatus = n_sync_status r, item_Type = []\<rparr>"

text \<open>
  The WHERE clause that \<open>SearchNotes\<close> assembles: the row is not deleted; when the
  query is not empty, title or content is \<open>LIKE\<close> the query between two \<open>%\<close>; and for each
  requested tag, in order, the stored tags text (which may be NULL) is \<open>LIKE\<close> the tag
  between double quotes between two \<open>%\<close>.
\<close>

definition search_where :: "string \<Rightarrow> string list \<Rightarrow> notes_row \<Rightarrow> sql_error + bool" where
  "search_where query tgs r =
     sql_AND
       ([Inr (\<not> n_deleted r)]
        @ (if query \<noteq> []
           then (let searchTerm = ''%'' @ query @ ''%''
                 in [sql_OR (likeFunc searchTerm (Some (n_title r)))
                            (likeFunc searchTerm (Some (n_content r)))])
           else [])
        @ map (\<lambda>tag. likeFunc (''%'' @ [CHR 0x22] @ tag @ [CHR 0x22] @ ''%'') (n_tags r)) tgs)"

text \<open>
  \<open>ORDER BY updated_at DESC\<close>. The column holds text: the driver writes a Go
  \<open>time.Time\<close> as date, time and zone offset of its location, and \<open>CURRENT_TIMESTAMP\<close> is
  date and time in UTC. The engine orders that text byte by byte; it does not read it
  as an instant. What the column holds for a row is decided outside this repository,
  so it is a parameter here. The query is answered by a backward scan of the index
  \<open>idx_notes_updated\<close>, whose entries are ordered by the text and then by the row id: rows
  with the same text come with the greater id first.
\<close>

definition order_by_updated_at_desc :: "(notes_row \<Rightarrow> string) \<Rightarrow> notes_row list \<Rightarrow> notes_row list" where
  "order_by_updated_at_desc updated_at_text rows =
     rev (sort_key (\<lambda>r. (updated_at_text r, n_id r)) rows)"

text \<open>
  The loop over the rows of the scan: the first error ends the query. A row is
  returned only after every condition has been evaluated on it, and the patterns are
  the same for all rows, so no row has been returned when an error is met: the Go
  function then returns a nil list with the error.
\<close>

fun rows_Next :: "(notes_row \<Rightarrow> sql_error + bool) \<Rightarrow> notes_row list \<Rightarrow> sql_error + notes_row list" where
  "rows_Next w [] = Inr []"
| "rows_Next w (r # rows) =
     (case w r of
        Inl e \<Rightarrow> Inl e
      | Inr b \<Rightarrow>
          (case rows_Next w rows of
             Inl e \<Rightarrow> Inl e
           | Inr found \<Rightarrow> Inr (if b then r # found else found)))"

definition SearchNotes ::
  "(notes_row \<Rightarrow> string) \<Rightarrow> DB \<Rightarrow> string \<Rightarrow> string list \<Rightarrow> sql_error + NoteListItem list" where
  "SearchNotes updated_at_text db query tgs =
     (case rows_Next (search_where query tgs)
             (order_by_updated_at_desc updated_at_text (t_notes db)) of
        Inl e \<Rightarrow> Inl e
      | Inr found \<Rightarrow> Inr (map scan_NoteListItem found))"

subsection \<open>Sync-related functions\<close>

definition scan_Note :: "unmarshal \<Rightarrow> notes_row \<Rightarrow> Note" where
  "scan_Note unmarshal r =
     \<lparr>ID = n_id r, Title = n_title r, Content = n_content r,
      Tags = (case n_tags r of None \<Rightarrow> [] | Some t \<Rightarrow> if t \<noteq> [] then unmarshal t else []),
      CreatedAt = n_created_at r, UpdatedAt = n_updated_at r,
      ServerID = (case n_server_id r of None \<Rightarrow> [] | Some s \<Rightarrow> s),
      Status = n_sync_status r, Deleted = n_deleted r, ParentFolder = 0\<rparr>"

definition GetPendingNotes :: "unmarshal \<Rightarrow> DB \<Rightarrow> Note list" where
  "GetPendingNotes unmarshal db =
     map (scan_Note unmarshal) (filter (\<lambda>r. n_sync_status r = SyncStatusPending) (t_notes db))"

definition SetNoteSynced :: "DB \<Rightarrow> int \<Rightarrow> string \<Rightarrow> DB" where
  "SetNoteSynced db i serverID =
     db\<lparr>t_notes := map (\<lambda>r. if n_id r = i
                              then r\<lparr>n_server_id := Some serverID, n_sync_status := SyncStatusSynced\<rparr>
                              else r) (t_notes db)\<rparr>"

text \<open>\<open>QueryRow\<close> takes the first matching row; no row is the nil result.\<close>

definition GetNoteByServerID :: "unmarshal \<Rightarrow> DB \<Rightarrow> string \<Rightarrow> Note option" where
  "GetNoteByServerID unmarshal db serverID =
     map_option (scan_Note unmarshal) (find (\<lambda>r. n_server_id r = Some serverID) (t_notes db))"

definition UpsertFromServer ::
  "unmarshal \<Rightarrow> DB \<Rightarrow> string \<Rightarrow> string \<Rightarrow> string \<Rightarrow> string \<Rightarrow> time \<Rightarrow> time \<Rightarrow> DB" where
  "UpsertFromServer unmarshal db serverID ttl cnt tgs createdAt updatedAt =
     (case GetNoteByServerID unmarshal db serverID of
        Some existing \<Rightarrow>
          if After updatedAt (UpdatedAt existing)
          then db\<lparr>t_notes := map (\<lambda>r. if n_server_id r = Some serverID
                                        then r\<lparr>n_title := ttl, n_content := cnt, n_tags := Some tgs,
                                               n_updated_at := updatedAt,
                                               n_sync_status := SyncStatusSynced\<rparr>
                                        else r) (t_notes db)\<rparr>
          else db
      | None \<Rightarrow>
          (let new_id = seq_notes db + 1;
               row = \<lparr>n_id = new_id, n_title = ttl, n_content = cnt, n_tags = Some tgs,
                      n_password = None, n_parent_folder_id = None, n_created_at = createdAt,
                      n_updated_at = updatedAt, n_server_id = Some serverID,
                      n_sync_status = SyncStatusSynced, n_deleted = False\<rparr>
           in db\<lparr>t_notes := t_notes db @ [row], seq_notes := new_id\<rparr>))"

definition PermanentlyDeleteSynced :: "DB \<Rightarrow> int \<Rightarrow> DB" where
  "PermanentlyDeleteSynced db i =
     db\<lparr>t_notes := filter (\<lambda>r. \<not> (n_id r = i \<and> n_deleted r)) (t_notes db)\<rparr>"

subsection \<open>Version control functions\<close>

text \<open>
  SHA-256 belongs to Go's library: \<open>SaveNoteVersion\<close> takes as \<open>sha256_hex\<close> the function
  from a content to the hexadecimal text of its digest, and keeps the first 12 characters.
  Go's \<open>int\<close> is 64 bits wide: \<open>maxVersion+1\<close> wraps around.
\<close>

datatype error = ErrNoRows | ErrScan | ErrTransport string

definition int64 :: "int \<Rightarrow> int" where
  "int64 x = (x + 2 ^ 63) mod 2 ^ 64 - 2 ^ 63"

definition versions_of :: "DB \<Rightarrow> int \<Rightarrow> note_versions_row list" where
  "versions_of db noteID = filter (\<lambda>v. v_note_id v = noteID) (t_note_versions db)"

definition order_by_version_num_desc :: "note_versions_row list \<Rightarrow> note_versions_row list" where
  "order_by_version_num_desc rows = sort_key (\<lambda>v. - v_version_num v) rows"

text \<open>\<open>SELECT COALESCE(MAX(version_num), 0)\<close> over the rows of one note.\<close>

definition max_version_num :: "note_versions_row list \<Rightarrow> int" where
  "max_version_num rows =
     (case map v_version_num rows of [] \<Rightarrow> 0 | n # ns \<Rightarrow> fold max ns n)"

definition SaveNoteVersion ::
  "(string \<Rightarrow> string) \<Rightarrow> marshal \<Rightarrow> DB \<Rightarrow> time \<Rightarrow> int \<Rightarrow> string \<Rightarrow> string \<Rightarrow> string list \<Rightarrow> DB" where
  "SaveNoteVersion sha256_hex marshal db now noteID ttl cnt tgs =
     (let hashStr = take 12 (sha256_hex cnt);
          lastHash = (case order_by_version_num_desc (versions_of db noteID) of
                        [] \<Rightarrow> None
                      | v # _ \<Rightarrow> Some (v_hash v))
      in if lastHash = Some (Some hashStr) then db
         else
           (let maxVersion = max_version_num (versions_of db noteID);
                tagsJSON = marshal tgs;
                new_id = seq_note_versions db + 1;
                row = \<lparr>v_id = new_id, v_note_id = noteID, v_title = ttl, v_content = cnt,
                       v_tags = Some tagsJSON, v_hash = Some hashStr,
                       v_version_num = int64 (maxVersion + 1),
                       v_created_at = CURRENT_TIMESTAMP now\<rparr>
            in db\<lparr>t_note_versions := t_note_versions db @ [row], seq_note_versions := new_id\<rparr>))"

record NoteVersion =
  nv_ID :: int
  nv_NoteID :: int
  nv_Title :: string
  nv_Content :: string
  nv_Tags :: "string list"
  nv_Hash :: string
  nv_CreatedAt :: time
  nv_VersionNum :: int

definition scan_NoteVersion :: "unmarshal \<Rightarrow> note_versions_row \<Rightarrow> error + NoteVersion" where
  "scan_NoteVersion unmarshal v =
     (case v_tags v of
        None \<Rightarrow> Inl ErrScan
      | Some tagsJSON \<Rightarrow>
          Inr \<lparr>nv_ID = v_id v, nv_NoteID = v_note_id v, nv_Title = v_title v,
               nv_Content = v_content v, nv_Tags = unmarshal tagsJSON,
               nv_Hash = (case v_hash v of None \<Rightarrow> [] | Some h \<Rightarrow> h),
               nv_CreatedAt = v_created_at v, nv_VersionNum = v_version_num v\<rparr>)"

definition GetNoteVersion :: "unmarshal \<Rightarrow> DB \<Rightarrow> int \<Rightarrow> error + NoteVersion" where
  "GetNoteVersion unmarshal db versionID =
     (case find (\<lambda>v. v_id v = versionID) (t_note_versions db) of
        None \<Rightarrow> Inl ErrNoRows
      | Some v \<Rightarrow> scan_NoteVersion unmarshal v)"

definition RestoreNoteVersion ::
  "marshal \<Rightarrow> unmarshal \<Rightarrow> DB \<Rightarrow> time \<Rightarrow> int \<Rightarrow> int \<Rightarrow> error option \<times> DB" where
  "RestoreNoteVersion marshal unmarshal db now noteID versionID =
     (case GetNoteVersion unmarshal db versionID of
        Inl err \<Rightarrow> (Some err, db)
      | Inr version \<Rightarrow>
          (let tagsJSON = marshal (nv_Tags version)
           in (None,
               db\<lparr>t_notes := map (\<lambda>r. if n_id r = noteID
                                        then r\<lparr>n_title := nv_Title version,
                                               n_content := nv_Content version,
                                               n_tags := Some tagsJSON,
                                               n_updated_at := CURRENT_TIMESTAMP now,
                                               n_sync_status := SyncStatusPending\<rparr>
                                        else r) (t_notes db)\<rparr>)))"

section \<open>The sync pass (internal/api)\<close>

record UpsertNoteRequest =
  req_ID :: string
  req_Title :: string
  req_Content :: string
  req_Tags :: string
  req_CreatedAt :: int
  req_UpdatedAt :: int

record NoteResponse =
  resp_ID :: string
  resp_Title :: string
  resp_Content :: string
  resp_Tags :: string
  resp_CreatedAt :: int
  resp_UpdatedAt :: int

record SyncResult =
  Uploaded :: int
  Downloaded :: int
  DeletedCount :: int
  Errors :: "error list"

text \<open>
  The transport client. What the network answers is not decided by this code, so the
  client carries one answer function for each call the pass makes; an answer may depend
  on the calls made so far. The pass records its calls in order, which is what lets a
  theorem say that a call was or was not made.
\<close>

datatype call = DeleteNote_call string | UpsertNote_call UpsertNoteRequest | SyncNotes_call int

record Client =
  token :: string
  DeleteNote_answer :: "call list \<Rightarrow> string \<Rightarrow> error option"
  UpsertNote_answer :: "call list \<Rightarrow> UpsertNoteRequest \<Rightarrow> error + NoteResponse"
  SyncNotes_answer :: "call list \<Rightarrow> int \<Rightarrow> error + NoteResponse list"

definition IsAuthenticated :: "Client \<Rightarrow> bool" where
  "IsAuthenticated c = (token c \<noteq> [])"

type_synonym sync_state = "DB \<times> SyncResult \<times> call list"

text \<open>
  The body of the upload loop of \<open>Sync\<close>, for one pending note. The results of
  \<open>PermanentlyDeleteSynced\<close> and \<open>SetNoteSynced\<close> are dropped by the code. Since the
  storage engine is taken not to fail, the two places where \<open>Sync\<close> looks at a storage
  error (after \<open>GetPendingNotes\<close>, where it returns the error, and after
  \<open>UpsertFromServer\<close>, where it records it) have no branch here.
\<close>

definition upload_note :: "marshal \<Rightarrow> Client \<Rightarrow> Note \<Rightarrow> sync_state \<Rightarrow> sync_state" where
  "upload_note marshal client note st =
     (case st of (db, result, calls) \<Rightarrow>
       if Deleted note then
         (if ServerID note \<noteq> [] then
            (case DeleteNote_answer client calls (ServerID note) of
               Some err \<Rightarrow>
                 (db, result\<lparr>Errors := Errors result @ [err]\<rparr>,
                  calls @ [DeleteNote_call (ServerID note)])
             | None \<Rightarrow>
                 (PermanentlyDeleteSynced db (ID note),
                  result\<lparr>DeletedCount := DeletedCount result + 1\<rparr>,
                  calls @ [DeleteNote_call (ServerID note)]))
          else
            (PermanentlyDeleteSynced db (ID note),
             result\<lparr>DeletedCount := DeletedCount result + 1\<rparr>, calls))
       else
         (let tagsJSON = marshal (Tags note);
              req = \<lparr>req_ID = ServerID note, req_Title = Title note, req_Content = Content note,
                     req_Tags = tagsJSON, req_CreatedAt = Unix (CreatedAt note),
                     req_UpdatedAt = Unix (UpdatedAt note)\<rparr>
          in case UpsertNote_answer client calls req of
               Inl err \<Rightarrow>
                 (db, result\<lparr>Errors := Errors result @ [err]\<rparr>, calls @ [UpsertNote_call req])
             | Inr resp \<Rightarrow>
                 (SetNoteSynced db (ID note) (resp_ID resp),
                  result\<lparr>Uploaded := Uploaded result + 1\<rparr>, calls @ [UpsertNote_call req])))"

fun upload :: "marshal \<Rightarrow> Client \<Rightarrow> Note list \<Rightarrow> sync_state \<Rightarrow> sync_state" where
  "upload marshal client [] st = st"
| "upload marshal client (note # pending) st =
     upload marshal client pending (upload_note marshal client note st)"

text \<open>The body of the download loop of \<open>Sync\<close>, for one note of the server's answer.\<close>

definition download_note :: "unmarshal \<Rightarrow> NoteResponse \<Rightarrow> sync_state \<Rightarrow> sync_state" where
  "download_note unmarshal sn st =
     (case st of (db, result, calls) \<Rightarrow>
        (UpsertFromServer unmarshal db (resp_ID sn) (resp_Title sn) (resp_Content sn) (resp_Tags sn)
           (time_Unix (resp_CreatedAt sn)) (time_Unix (resp_UpdatedAt sn)),
         result\<lparr>Downloaded := Downloaded result + 1\<rparr>, calls))"

fun download :: "unmarshal \<Rightarrow> NoteResponse list \<Rightarrow> sync_state \<Rightarrow> sync_state" where
  "download unmarshal [] st = st"
| "download unmarshal (sn # serverNotes) st =
     download unmarshal serverNotes (download_note unmarshal sn st)"

definition Sync :: "marshal \<Rightarrow> unmarshal \<Rightarrow> DB \<Rightarrow> Client \<Rightarrow> int \<Rightarrow> sync_state" where
  "Sync marshal unmarshal database client lastSync =
     (let result = \<lparr>Uploaded = 0, Downloaded = 0, DeletedCount = 0, Errors = []\<rparr>;
          pending = GetPendingNotes unmarshal database;
          uploaded = upload marshal client pending (database, result, [])
      in case uploaded of (db, result, calls) \<Rightarrow>
           (case SyncNotes_answer client calls lastSync of
              Inl err \<Rightarrow>
                (db, result\<lparr>Errors := Errors result @ [err]\<rparr>, calls @ [SyncNotes_call lastSync])
            | Inr serverNotes \<Rightarrow>
                download unmarshal serverNotes (db, result, calls @ [SyncNotes_call lastSync])))"

section \<open>The caller of the sync pass (internal/ui)\<close>

text \<open>
  Of the terminal model, the fields that the sync pass reads and writes: the client (nil
  or not), the database, the checkpoint \<open>config.Server.LastSync\<close> in memory, and the
  checkpoint in the configuration file that \<open>config.Save\<close> writes. The text of the
  status message is left out. \<open>transport_calls\<close> keeps the record of calls of the last
  pass.
\<close>

record syncResultMsg =
  success :: bool
  uploadBytes :: int
  downloadBytes :: int

record Model =
  apiClient :: "Client option"
  m_db :: DB
  LastSync :: int
  saved_LastSync :: int
  syncing :: bool
  m_uploadBytes :: int
  m_downloadBytes :: int
  transport_calls :: "call list"

definition doSync :: "marshal \<Rightarrow> unmarshal \<Rightarrow> Model \<Rightarrow> syncResultMsg \<times> Model" where
  "doSync marshal unmarshal m =
     (case apiClient m of
        None \<Rightarrow> (\<lparr>success = False, uploadBytes = 0, downloadBytes = 0\<rparr>, m)
      | Some client \<Rightarrow>
          if \<not> IsAuthenticated client
          then (\<lparr>success = False, uploadBytes = 0, downloadBytes = 0\<rparr>, m)
          else
            (case Sync marshal unmarshal (m_db m) client (LastSync m) of (db', result, calls) \<Rightarrow>
               (\<lparr>success = (\<not> length (Errors result) > 0),
                 uploadBytes = Uploaded result, downloadBytes = Downloaded result\<rparr>,
                m\<lparr>m_db := db', transport_calls := calls\<rparr>)))"

text \<open>The \<open>syncResultMsg\<close> case of \<open>Update\<close>.\<close>

definition Update_syncResultMsg :: "Model \<Rightarrow> time \<Rightarrow> syncResultMsg \<Rightarrow> Model" where
  "Update_syncResultMsg m now msg =
     (let m1 = m\<lparr>syncing := False, m_uploadBytes := uploadBytes msg,
                 m_downloadBytes := downloadBytes msg\<rparr>
      in if success msg
         then m1\<lparr>LastSync := Unix now, saved_LastSync := Unix now\<rparr>
         else m1)"

text \<open>One pass as the program runs it: the command, then the handling of its message.\<close>

definition sync_pass :: "marshal \<Rightarrow> unmarshal \<Rightarrow> Model \<Rightarrow> time \<Rightarrow> Model" where
  "sync_pass marshal unmarshal m now =
     (case doSync marshal unmarshal m of (msg, m') \<Rightarrow> Update_syncResultMsg m' now msg)"

section \<open>The remote store (internal/db/server.go)\<close>

text \<open>
  The server's \<open>notes\<close> and \<open>folders\<close> tables. \<open>parent_folder_id\<close> is stored as NULL
  for the empty string and read back through \<open>COALESCE(parent_folder_id, '')\<close>, so the
  empty string stands for NULL. \<open>uuid.New().String()\<close> is the argument \<open>fresh\<close>.
\<close>

record ServerNote =
  sn_ID :: string
  sn_UserID :: int
  sn_Title :: string
  sn_Content :: string
  sn_Tags :: string
  sn_ParentFolderID :: string
  sn_CreatedAt :: time
  sn_UpdatedAt :: time

record ServerFolder =
  sf_ID :: string
  sf_UserID :: int
  sf_Title :: string
  sf_ParentFolderID :: string
  sf_CreatedAt :: time
  sf_UpdatedAt :: time

record ServerNoteVersion =
  snv_ID :: string
  snv_NoteID :: string
  snv_UserID :: int
  snv_Title :: string
  snv_Content :: string
  snv_Tags :: string
  snv_Hash :: string
  snv_VersionNum :: int
  snv_CreatedAt :: time

record ServerDB =
  s_notes :: "ServerNote list"
  s_folders :: "ServerFolder list"
  s_note_versions :: "ServerNoteVersion list"

definition ListNotesByUser :: "ServerDB \<Rightarrow> int \<Rightarrow> ServerNote list" where
  "ListNotesByUser sdb userID =
     sort_key (\<lambda>n. - sn_UpdatedAt n) (filter (\<lambda>n. sn_UserID n = userID) (s_notes sdb))"

definition ServerDB_GetNote :: "ServerDB \<Rightarrow> string \<Rightarrow> int \<Rightarrow> ServerNote option" where
  "ServerDB_GetNote sdb i userID =
     find (\<lambda>n. sn_ID n = i \<and> sn_UserID n = userID) (s_notes sdb)"

text \<open>
  \<open>INSERT ... ON CONFLICT(id) DO UPDATE SET ... WHERE user_id = ?\<close>: with no row of that
  id the row is inserted; otherwise the row of that id is updated when its own
  \<open>user_id\<close> is the caller's, and left as it is when not. The returned struct is built
  from the arguments.
\<close>

definition UpsertNote ::
  "ServerDB \<Rightarrow> string \<Rightarrow> int \<Rightarrow> string \<Rightarrow> string \<Rightarrow> string \<Rightarrow> string \<Rightarrow> string \<Rightarrow> time \<Rightarrow> time
     \<Rightarrow> ServerNote \<times> ServerDB" where
  "UpsertNote sdb fresh userID i ttl cnt tgs parentFolderID createdAt updatedAt =
     (let i = (if i = [] then fresh else i);
          sdb' =
            (if list_ex (\<lambda>n. sn_ID n = i) (s_notes sdb)
             then sdb\<lparr>s_notes := map (\<lambda>n. if sn_ID n = i \<and> sn_UserID n = userID
                                              then n\<lparr>sn_Title := ttl, sn_Content := cnt,
                                                     sn_Tags := tgs,
                                                     sn_ParentFolderID := parentFolderID,
                                                     sn_UpdatedAt := updatedAt\<rparr>
                                              else n) (s_notes sdb)\<rparr>
             else sdb\<lparr>s_notes := s_notes sdb @
                        [\<lparr>sn_ID = i, sn_UserID = userID, sn_Title = ttl, sn_Content = cnt,
                          sn_Tags = tgs, sn_ParentFolderID = parentFolderID,
                          sn_CreatedAt = createdAt, sn_UpdatedAt = updatedAt\<rparr>]\<rparr>)
      in (\<lparr>sn_ID = i, sn_UserID = userID, sn_Title = ttl, sn_Content = cnt, sn_Tags = tgs,
            sn_ParentFolderID = parentFolderID, sn_CreatedAt = createdAt,
            sn_UpdatedAt = updatedAt\<rparr>, sdb'))"

definition ServerDB_DeleteNote :: "ServerDB \<Rightarrow> string \<Rightarrow> int \<Rightarrow> ServerDB" where
  "ServerDB_DeleteNote sdb i userID =
     sdb\<lparr>s_notes := filter (\<lambda>n. \<not> (sn_ID n = i \<and> sn_UserID n = userID)) (s_notes sdb)\<rparr>"

definition GetNotesSince :: "ServerDB \<Rightarrow> int \<Rightarrow> time \<Rightarrow> ServerNote list" where
  "GetNotesSince sdb userID since =
     sort_key (\<lambda>n. - sn_UpdatedAt n)
       (filter (\<lambda>n. sn_UserID n = userID \<and> sn_UpdatedAt n > since) (s_notes sdb))"

definition ListFoldersByUser :: "ServerDB \<Rightarrow> int \<Rightarrow> ServerFolder list" where
  "ListFoldersByUser sdb userID =
     sort_key sf_Title (filter (\<lambda>f. sf_UserID f = userID) (s_folders sdb))"

definition ServerDB_GetFolder :: "ServerDB \<Rightarrow> string \<Rightarrow> int \<Rightarrow> ServerFolder option" where
  "ServerDB_GetFolder sdb i userID =
     find (\<lambda>f. sf_ID f = i \<and> sf_UserID f = userID) (s_folders sdb)"

definition UpsertFolder ::
  "ServerDB \<Rightarrow> string \<Rightarrow> int \<Rightarrow> string \<Rightarrow> string \<Rightarrow> string \<Rightarrow> time \<Rightarrow> time
     \<Rightarrow> ServerFolder \<times> ServerDB" where
  "UpsertFolder sdb fresh userID i ttl parentFolderID createdAt updatedAt =
     (let i = (if i = [] then fresh else i);
          sdb' =
            (if list_ex (\<lambda>f. sf_ID f = i) (s_folders sdb)
             then sdb\<lparr>s_folders := map (\<lambda>f. if sf_ID f = i \<and> sf_UserID f = userID
                                                then f\<lparr>sf_Title := ttl,
                                                       sf_ParentFolderID := parentFolderID,
                                                       sf_UpdatedAt := updatedAt\<rparr>
                                                else f) (s_folders sdb)\<rparr>
             else sdb\<lparr>s_folders := s_folders sdb @
                        [\<lparr>sf_ID = i, sf_UserID = userID, sf_Title = ttl,
                          sf_ParentFolderID = parentFolderID,
                          sf_CreatedAt = createdAt, sf_UpdatedAt = updatedAt\<rparr>]\<rparr>)
      in (\<lparr>sf_ID = i, sf_UserID = userID, sf_Title = ttl, sf_ParentFolderID = parentFolderID,
            sf_CreatedAt = createdAt, sf_UpdatedAt = updatedAt\<rparr>, sdb'))"

definition ServerDB_DeleteFolder :: "ServerDB \<Rightarrow> string \<Rightarrow> int \<Rightarrow> ServerDB" where
  "ServerDB_DeleteFolder sdb i userID =
     sdb\<lparr>s_folders := filter (\<lambda>f. \<not> (sf_ID f = i \<and> sf_UserID f = userID)) (s_folders sdb)\<rparr>"

definition GetFoldersSince :: "ServerDB \<Rightarrow> int \<Rightarrow> time \<Rightarrow> ServerFolder list" where
  "GetFoldersSince sdb userID since =
     sort_key (\<lambda>f. - sf_UpdatedAt f)
       (filter (\<lambda>f. sf_UserID f = userID \<and> sf_UpdatedAt f > since) (s_folders sdb))"

text \<open>
  The version operations of the remote store. The \<open>DO UPDATE\<close> of \<open>UpsertVersion\<close>
  has no \<open>WHERE\<close> clause: the row of that id is updated whoever owns it.
\<close>

definition ListVersionsByNote :: "ServerDB \<Rightarrow> string \<Rightarrow> int \<Rightarrow> ServerNoteVersion list" where
  "ListVersionsByNote sdb noteID userID =
     sort_key (\<lambda>v. - snv_VersionNum v)
       (filter (\<lambda>v. snv_NoteID v = noteID \<and> snv_UserID v = userID) (s_note_versions sdb))"

definition UpsertVersion ::
  "ServerDB \<Rightarrow> string \<Rightarrow> int \<Rightarrow> string \<Rightarrow> string \<Rightarrow> string \<Rightarrow> string \<Rightarrow> string \<Rightarrow> string \<Rightarrow> int
     \<Rightarrow> time \<Rightarrow> ServerNoteVersion \<times> ServerDB" where
  "UpsertVersion sdb fresh userID i noteID ttl cnt tgs hash versionNum createdAt =
     (let i = (if i = [] then fresh else i);
          sdb' =
            (if list_ex (\<lambda>v. snv_ID v = i) (s_note_versions sdb)
             then sdb\<lparr>s_note_versions :=
                        map (\<lambda>v. if snv_ID v = i
                                  then v\<lparr>snv_Title := ttl, snv_Content := cnt, snv_Tags := tgs,
                                         snv_Hash := hash\<rparr>
                                  else v) (s_note_versions sdb)\<rparr>
             else sdb\<lparr>s_note_versions := s_note_versions sdb @
                        [\<lparr>snv_ID = i, snv_NoteID = noteID, snv_UserID = userID, snv_Title = ttl,
                          snv_Content = cnt, snv_Tags = tgs, snv_Hash = hash,
                          snv_VersionNum = versionNum, snv_CreatedAt = createdAt\<rparr>]\<rparr>)
      in (\<lparr>snv_ID = i, snv_NoteID = noteID, snv_UserID = userID, snv_Title = ttl,
            snv_Content = cnt, snv_Tags = tgs, snv_Hash = hash, snv_VersionNum = versionNum,
            snv_CreatedAt = createdAt\<rparr>, sdb'))"

definition GetVersionsSince :: "ServerDB \<Rightarrow> int \<Rightarrow> time \<Rightarrow> ServerNoteVersion list" where
  "GetVersionsSince sdb userID since =
     sort_key (\<lambda>v. - snv_CreatedAt v)
       (filter (\<lambda>v. snv_UserID v = userID \<and> snv_CreatedAt v > since) (s_note_versions sdb))"

section \<open>The upsert handler (internal/server/handlers.go)\<close>

text \<open>
  The handler's inputs are the authenticated user, the decoded request body (\<open>None\<close> when
  the body does not decode), the server's clock and the fresh UUID. Its output is the
  HTTP response and the database.
\<close>

record server_UpsertNoteRequest =
  sreq_ID :: string
  sreq_Title :: string
  sreq_Content :: string
  sreq_Tags :: string
  sreq_ParentFolderID :: string
  sreq_CreatedAt :: int
  sreq_UpdatedAt :: int

record server_NoteResponse =
  sresp_ID :: string
  sresp_Title :: string
  sresp_Content :: string
  sresp_Tags :: string
  sresp_ParentFolderID :: string
  sresp_CreatedAt :: int
  sresp_UpdatedAt :: int

record UpsertFolderRequest =
  freq_ID :: string
  freq_Title :: string
  freq_ParentFolderID :: string
  freq_CreatedAt :: int
  freq_UpdatedAt :: int

record FolderResponse =
  fresp_ID :: string
  fresp_Title :: string
  fresp_ParentFolderID :: string
  fresp_CreatedAt :: int
  fresp_UpdatedAt :: int

datatype 'a http_response = jsonError string nat | jsonResponse 'a nat

definition upsertNoteHandler ::
  "ServerDB \<Rightarrow> time \<Rightarrow> string \<Rightarrow> int \<Rightarrow> server_UpsertNoteRequest option
     \<Rightarrow> server_NoteResponse http_response \<times> ServerDB" where
  "upsertNoteHandler sdb now fresh user_ID body =
     (case body of
        None \<Rightarrow> (jsonError ''invalid request body'' 400, sdb)
      | Some req \<Rightarrow>
          if sreq_Title req = [] then (jsonError ''title required'' 400, sdb)
          else
            (let createdAt = (if sreq_CreatedAt req > 0 then time_Unix (sreq_CreatedAt req) else now);
                 updatedAt = (if sreq_UpdatedAt req > 0 then time_Unix (sreq_UpdatedAt req) else now)
             in case UpsertNote sdb fresh user_ID (sreq_ID req) (sreq_Title req) (sreq_Content req)
                       (sreq_Tags req) (sreq_ParentFolderID req) createdAt updatedAt of
                  (note, sdb') \<Rightarrow>
                    (jsonResponse
                       \<lparr>sresp_ID = sn_ID note, sresp_Title = sn_Title note,
                        sresp_Content = sn_Content note, sresp_Tags = sn_Tags note,
                        sresp_ParentFolderID = sn_ParentFolderID note,
                        sresp_CreatedAt = Unix (sn_CreatedAt note),
                        sresp_UpdatedAt = Unix (sn_UpdatedAt note)\<rparr> 200, sdb')))"

definition upsertFolderHandler ::
  "ServerDB \<Rightarrow> time \<Rightarrow> string \<Rightarrow> int \<Rightarrow> UpsertFolderRequest option
     \<Rightarrow> FolderResponse http_response \<times> ServerDB" where
  "upsertFolderHandler sdb now fresh user_ID body =
     (case body of
        None \<Rightarrow> (jsonError ''invalid request body'' 400, sdb)
      | Some req \<Rightarrow>
          if freq_Title req = [] then (jsonError ''title required'' 400, sdb)
          else
            (let createdAt = (if freq_CreatedAt req > 0 then time_Unix (freq_CreatedAt req) else now);
                 updatedAt = (if freq_UpdatedAt req > 0 then time_Unix (freq_UpdatedAt req) else now)
             in case UpsertFolder sdb fresh user_ID (freq_ID req) (freq_Title req)
                       (freq_ParentFolderID req) createdAt updatedAt of
                  (folder, sdb') \<Rightarrow>
                    (jsonResponse
                       \<lparr>fresp_ID = sf_ID folder, fresp_Title = sf_Title folder,
                        fresp_ParentFolderID = sf_ParentFolderID folder,
                        fresp_CreatedAt = Unix (sf_CreatedAt folder),
                        fresp_UpdatedAt = Unix (sf_UpdatedAt folder)\<rparr> 200, sdb')))"

section \<open>Notions used in the properties\<close>

subsection \<open>What one user reads\<close>

text \<open>
  The rows of one user, and the three reads the store offers on each table, taken
  together. They serve to state that one user's writes leave another user's reads alone.
\<close>

definition notes_of :: "ServerDB \<Rightarrow> int \<Rightarrow> ServerNote list" where
  "notes_of sdb v = filter (\<lambda>n. sn_UserID n = v) (s_notes sdb)"

definition folders_of :: "ServerDB \<Rightarrow> int \<Rightarrow> ServerFolder list" where
  "folders_of sdb v = filter (\<lambda>f. sf_UserID f = v) (s_folders sdb)"

definition note_reads ::
  "ServerDB \<Rightarrow> int \<Rightarrow> time \<Rightarrow> string \<Rightarrow> ServerNote list \<times> ServerNote list \<times> ServerNote option" where
  "note_reads sdb v since i = (ListNotesByUser sdb v, GetNotesSince sdb v since, ServerDB_GetNote sdb i v)"

definition folder_reads ::
  "ServerDB \<Rightarrow> int \<Rightarrow> time \<Rightarrow> string
     \<Rightarrow> ServerFolder list \<times> ServerFolder list \<times> ServerFolder option" where
  "folder_reads sdb v since i =
     (ListFoldersByUser sdb v, GetFoldersSince sdb v since, ServerDB_GetFolder sdb i v)"

subsection \<open>Rows of a server id\<close>





subsection \<open>Reading the call record\<close>


subsection \<open>What the transport refuses\<close>

text \<open>
  The words used to state when a pass records an error during the upload. For one
  pending note: the request an upsert of it sends, the calls the loop makes for it (none
  for a deleted note without server id), and the error, if any, that the transport
  answers to that call when \<open>calls\<close> is the record of the calls made before it. For a
  list of pending notes: the errors answered in order, each note's call being made after
  the calls of the notes before it.
\<close>

definition upsert_request :: "marshal \<Rightarrow> Note \<Rightarrow> UpsertNoteRequest" where
  "upsert_request marshal n =
     \<lparr>req_ID = ServerID n, req_Title = Title n, req_Content = Content n,
      req_Tags = marshal (Tags n), req_CreatedAt = Unix (CreatedAt n),
      req_UpdatedAt = Unix (UpdatedAt n)\<rparr>"

definition note_calls :: "marshal \<Rightarrow> Note \<Rightarrow> call list" where
  "note_calls marshal n =
     (if Deleted n then (if ServerID n \<noteq> [] then [DeleteNote_call (ServerID n)] else [])
      else [UpsertNote_call (upsert_request marshal n)])"

definition refusal :: "marshal \<Rightarrow> Client \<Rightarrow> Note \<Rightarrow> call list \<Rightarrow> error list" where
  "refusal marshal client n calls =
     (if Deleted n then
        (if ServerID n \<noteq> [] then
           (case DeleteNote_answer client calls (ServerID n) of Some err \<Rightarrow> [err] | None \<Rightarrow> [])
         else [])
      else (case UpsertNote_answer client calls (upsert_request marshal n) of
              Inl err \<Rightarrow> [err] | Inr resp \<Rightarrow> []))"

fun refusals :: "marshal \<Rightarrow> Client \<Rightarrow> Note list \<Rightarrow> call list \<Rightarrow> error list" where
  "refusals marshal client [] calls = []"
| "refusals marshal client (n # ns) calls =
     refusal marshal client n calls @ refusals marshal client ns (calls @ note_calls marshal n)"

subsection \<open>Search, described\<close>

text \<open>
  The words used to state what \<open>SearchNotes\<close> matches. A query and its tags are within
  the limit when the patterns built from them are. A text is plain when it has no NUL
  byte and neither of the two \<open>LIKE\<close> wildcards. Containment of one text in another as
  a run of consecutive elements is taken first on the bytes, exactly (the reading of
  the specification), and then on the characters that the engine reads, up to the first
  NUL, with the ASCII letters compared without regard to case. \<open>like_matches\<close> is the
  WHERE clause when no pattern is too long.
\<close>

definition within_limit :: "string \<Rightarrow> string list \<Rightarrow> bool" where
  "within_limit query tgs =
     (length query + 2 \<le> SQLITE_MAX_LIKE_PATTERN_LENGTH
      \<and> list_all (\<lambda>tag. length tag + 4 \<le> SQLITE_MAX_LIKE_PATTERN_LENGTH) tgs)"

definition plain :: "string \<Rightarrow> bool" where
  "plain q = (CHR 0x00 \<notin> set q \<and> CHR ''%'' \<notin> set q \<and> CHR ''_'' \<notin> set q)"


definition ci_contains :: "string \<Rightarrow> string \<Rightarrow> bool" where
  "ci_contains q s =
     sublist (map sqlite3Tolower (utf8_read None (c_string q)))
             (map sqlite3Tolower (utf8_read None (c_string s)))"

definition like_matches :: "string \<Rightarrow> string list \<Rightarrow> notes_row \<Rightarrow> bool" where
  "like_matches query tgs r =
     (\<not> n_deleted r
      \<and> (query = [] \<or> LIKE (''%'' @ query @ ''%'') (n_title r)
                     \<or> LIKE (''%'' @ query @ ''%'') (n_content r))
      \<and> list_all (\<lambda>tag. case n_tags r of None \<Rightarrow> False
                          | Some t \<Rightarrow> LIKE (''%'' @ [CHR 0x22] @ tag @ [CHR 0x22] @ ''%'') t) tgs)"

definition ci_search_matches :: "string \<Rightarrow> string list \<Rightarrow> notes_row \<Rightarrow> bool" where
  "ci_search_matches query tgs r =
     (\<not> n_deleted r
      \<and> (ci_contains query (n_title r) \<or> ci_contains query (n_content r))
      \<and> list_all (\<lambda>tag. case n_tags r of None \<Rightarrow> False
                          | Some t \<Rightarrow> ci_contains ([CHR 0x22] @ tag @ [CHR 0x22]) t) tgs)"

section \<open>Example states\<close>

text \<open>Concrete states on which the properties below are exercised.\<close>

definition ex_marshal :: marshal where
  "ex_marshal tgs = ''[]''"

definition ex_unmarshal :: unmarshal where
  "ex_unmarshal t = []"

definition ex_note :: notes_row where
  "ex_note = \<lparr>n_id = 1, n_title = ''Hello'', n_content = ''body'', n_tags = Some ''[]'',
     n_password = None, n_parent_folder_id = None, n_created_at = time_Unix 100,
     n_updated_at = time_Unix 100, n_server_id = Some ''s1'',
     n_sync_status = SyncStatusSynced, n_deleted = False\<rparr>"

definition ex_db :: DB where
  "ex_db = \<lparr>t_notes = [ex_note], seq_notes = 1, t_folders = [], seq_folders = 0,
     t_note_versions = [], seq_note_versions = 0\<rparr>"

subsection \<open>A remote store with one user's note and folder\<close>

definition ex_sdb :: ServerDB where
  "ex_sdb = \<lparr>s_notes = [\<lparr>sn_ID = ''n1'', sn_UserID = 1, sn_Title = ''Mine'', sn_Content = ''secret'',
       sn_Tags = ''[]'', sn_ParentFolderID = [], sn_CreatedAt = time_Unix 10,
       sn_UpdatedAt = time_Unix 20\<rparr>],
     s_folders = [\<lparr>sf_ID = ''f1'', sf_UserID = 1, sf_Title = ''Box'', sf_ParentFolderID = [],
       sf_CreatedAt = time_Unix 10, sf_UpdatedAt = time_Unix 20\<rparr>],
     s_note_versions = [\<lparr>snv_ID = ''v1'', snv_NoteID = ''n1'', snv_UserID = 1,
       snv_Title = ''Mine'', snv_Content = ''secret'', snv_Tags = ''[]'',
       snv_Hash = ''aaaaaaaaaaaa'', snv_VersionNum = 1, snv_CreatedAt = time_Unix 10\<rparr>]\<rparr>"

definition ex_req :: server_UpsertNoteRequest where
  "ex_req = \<lparr>sreq_ID = ''n1'', sreq_Title = ''Theirs'', sreq_Content = ''x'', sreq_Tags = ''[]'',
     sreq_ParentFolderID = [], sreq_CreatedAt = 100, sreq_UpdatedAt = 200\<rparr>"

definition ex_req_new :: server_UpsertNoteRequest where
  "ex_req_new = \<lparr>sreq_ID = [], sreq_Title = ''New'', sreq_Content = ''x'', sreq_Tags = ''[]'',
     sreq_ParentFolderID = [], sreq_CreatedAt = 100, sreq_UpdatedAt = 200\<rparr>"

text \<open>A request naming the same id whose timestamps are not positive.\<close>

definition ex_req_unstamped :: server_UpsertNoteRequest where
  "ex_req_unstamped = \<lparr>sreq_ID = ''n1'', sreq_Title = ''Theirs'', sreq_Content = ''x'',
     sreq_Tags = ''[]'', sreq_ParentFolderID = [], sreq_CreatedAt = 0, sreq_UpdatedAt = - 5\<rparr>"

subsection \<open>A note with three versions, and a remote row\<close>

definition ex_versions :: "note_versions_row list" where
  "ex_versions =
     [\<lparr>v_id = 1, v_note_id = 1, v_title = ''T1'', v_content = ''c1'', v_tags = Some ''[]'',
       v_hash = Some ''aaaaaaaaaaaa'', v_version_num = 1, v_created_at = time_Unix 10\<rparr>,
      \<lparr>v_id = 2, v_note_id = 1, v_title = ''T2'', v_content = ''c2'', v_tags = Some ''[]'',
       v_hash = Some ''bbbbbbbbbbbb'', v_version_num = 2, v_created_at = time_Unix 20\<rparr>,
      \<lparr>v_id = 3, v_note_id = 1, v_title = ''T3'', v_content = ''c3'', v_tags = Some ''[]'',
       v_hash = Some ''cccccccccccc'', v_version_num = 3, v_created_at = time_Unix 30\<rparr>]"

definition ex_db_versions :: DB where
  "ex_db_versions = ex_db\<lparr>t_note_versions := ex_versions, seq_note_versions := 3\<rparr>"



subsection \<open>Pending notes and two transports\<close>

text \<open>
  Three pending notes: one deleted and never synced, one deleted and synced as \<open>s2\<close>,
  one live. The first client refuses every delete and every upsert and answers the
  download with an empty list; the second refuses deletes and accepts upserts.
\<close>

definition ex_pending_row :: "int \<Rightarrow> string option \<Rightarrow> bool \<Rightarrow> notes_row" where
  "ex_pending_row i sid del =
     \<lparr>n_id = i, n_title = ''A'', n_content = ''body'', n_tags = Some ''[]'', n_password = None,
      n_parent_folder_id = None, n_created_at = time_Unix 100, n_updated_at = time_Unix 100,
      n_server_id = sid, n_sync_status = SyncStatusPending, n_deleted = del\<rparr>"

definition ex_pending_db :: DB where
  "ex_pending_db =
     \<lparr>t_notes = [ex_pending_row 1 None True, ex_pending_row 2 (Some ''s2'') True,
                 ex_pending_row 3 None False],
      seq_notes = 3, t_folders = [], seq_folders = 0, t_note_versions = [],
      seq_note_versions = 0\<rparr>"

definition ex_client_refusing :: Client where
  "ex_client_refusing =
     \<lparr>token = ''tok'',
      DeleteNote_answer = (\<lambda>calls s. Some (ErrTransport ''timeout'')),
      UpsertNote_answer = (\<lambda>calls req. Inl (ErrTransport ''timeout'')),
      SyncNotes_answer = (\<lambda>calls since. Inr [])\<rparr>"

definition ex_client_accepting :: Client where
  "ex_client_accepting =
     \<lparr>token = ''tok'',
      DeleteNote_answer = (\<lambda>calls s. Some (ErrTransport ''timeout'')),
      UpsertNote_answer = (\<lambda>calls req.
         Inr \<lparr>resp_ID = ''s3'', resp_Title = req_Title req, resp_Content = req_Content req,
              resp_Tags = req_Tags req, resp_CreatedAt = req_CreatedAt req,
              resp_UpdatedAt = req_UpdatedAt req\<rparr>),
      SyncNotes_answer = (\<lambda>calls since. Inr [])\<rparr>"



definition ex_model :: Model where
  "ex_model =
     \<lparr>apiClient = Some ex_client_refusing, m_db = ex_pending_db, LastSync = 0,
      saved_LastSync = 0, syncing = True, m_uploadBytes = 0, m_downloadBytes = 0,
      transport_calls = []\<rparr>"

subsection \<open>A first saved version\<close>

text \<open>
  A stand-in for the digest so that the examples can run: any function does, since
  \<open>SaveNoteVersion\<close> only compares its results. \<open>ex_saved_db\<close> is the empty database
  after one save of the content \<open>c1\<close> for note 1.
\<close>

definition ex_sha256_hex :: "string \<Rightarrow> string" where
  "ex_sha256_hex c = c @ ''0123456789abcdef''"

definition ex_empty_db :: DB where
  "ex_empty_db = \<lparr>t_notes = [], seq_notes = 0, t_folders = [], seq_folders = 0,
     t_note_versions = [], seq_note_versions = 0\<rparr>"

definition ex_saved_db :: DB where
  "ex_saved_db =
     SaveNoteVersion ex_sha256_hex ex_marshal ex_empty_db (time_Unix 10) 1 ''T'' ''c1'' []"

subsection \<open>Stored timestamps\<close>

text \<open>
  The text held in \<open>updated_at\<close> for the example rows. Note 1 was written by the driver
  at 100 seconds after the epoch in a location two hours east of UTC; any other row,
  such as note 2 below, was stamped by \<open>CURRENT_TIMESTAMP\<close> at 200 seconds after the
  epoch.
\<close>

definition ex_updated_at_text :: "notes_row \<Rightarrow> string" where
  "ex_updated_at_text r =
     (if n_id r = 1 then ''1970-01-01 02:01:40+02:00'' else ''1970-01-01 00:03:20'')"

definition ex_restored_note :: notes_row where
  "ex_restored_note =
     ex_note\<lparr>n_id := 2, n_title := ''hello again'',
             n_updated_at := CURRENT_TIMESTAMP (time_Unix 200), n_server_id := None,
             n_sync_status := SyncStatusPending\<rparr>"

definition ex_two_formats_db :: DB where
  "ex_two_formats_db = ex_db\<lparr>t_notes := [ex_note, ex_restored_note], seq_notes := 2\<rparr>"


section \<open>Properties\<close>

subsection \<open>Mutating calls of the local store\<close>

text \<open>
  Claim C4 as stated fails: \<open>SetNotePassword\<close> on a synced note leaves it synced.
  The statement writes no \<open>sync_status\<close>.
\<close>

theorem C4_counterexample:
  "map n_sync_status (t_notes (SetNotePassword ex_db (time_Unix 5000) 1 ''pw''))
     \<noteq> [SyncStatusPending]"
  by (simp add: SetNotePassword_def ex_db_def ex_note_def)

text \<open>
  Claim C4, amended. Creating a note appends a row that is pending and stamped with the
  clock; updating and soft-deleting a note re-stamp \<open>updated_at\<close> with the clock and set
  the row pending, and leave every other row's status and stamp alone. Setting a note's
  password re-stamps \<open>updated_at\<close> and leaves every \<open>sync_status\<close> as it was. The folder
  calls (create, set-password, delete) stamp \<open>updated_at\<close>; folders have no sync status,
  and the folder calls do not touch the notes table.
\<close>

theorem C4_local_mutations:
  "map n_sync_status (t_notes (snd (CreateNote marshal d now ttl cnt tgs)))
     = map n_sync_status (t_notes d) @ [SyncStatusPending]
   \<and> map n_updated_at (t_notes (snd (CreateNote marshal d now ttl cnt tgs)))
     = map n_updated_at (t_notes d) @ [now]
   \<and> map n_sync_status (t_notes (snd (CreateNoteInFolder marshal d now ttl cnt tgs folderID)))
     = map n_sync_status (t_notes d) @ [SyncStatusPending]
   \<and> map n_updated_at (t_notes (snd (CreateNoteInFolder marshal d now ttl cnt tgs folderID)))
     = map n_updated_at (t_notes d) @ [now]
   \<and> map n_sync_status (t_notes (UpdateNote marshal d now i ttl cnt tgs))
     = map (\<lambda>r. if n_id r = i then SyncStatusPending else n_sync_status r) (t_notes d)
   \<and> map n_updated_at (t_notes (UpdateNote marshal d now i ttl cnt tgs))
     = map (\<lambda>r. if n_id r = i then now else n_updated_at r) (t_notes d)
   \<and> map n_sync_status (t_notes (DeleteNote d now i))
     = map (\<lambda>r. if n_id r = i then SyncStatusPending else n_sync_status r) (t_notes d)
   \<and> map n_updated_at (t_notes (DeleteNote d now i))
     = map (\<lambda>r. if n_id r = i then now else n_updated_at r) (t_notes d)
   \<and> map n_sync_status (t_notes (SetNotePassword d now i pw)) = map n_sync_status (t_notes d)
   \<and> map n_updated_at (t_notes (SetNotePassword d now i pw))
     = map (\<lambda>r. if n_id r = i then CURRENT_TIMESTAMP now else n_updated_at r) (t_notes d)
   \<and> map f_updated_at (t_folders (snd (CreateFolder d now ttl parentID)))
     = map f_updated_at (t_folders d) @ [CURRENT_TIMESTAMP now]
   \<and> map f_updated_at (t_folders (SetFolderPassword d now i pw))
     = map (\<lambda>r. if f_id r = i then CURRENT_TIMESTAMP now else f_updated_at r) (t_folders d)
   \<and> map f_updated_at (t_folders (DeleteFolder d now i))
     = map (\<lambda>r. if f_id r = i then CURRENT_TIMESTAMP now else f_updated_at r) (t_folders d)
   \<and> t_notes (snd (CreateFolder d now ttl parentID)) = t_notes d
   \<and> t_notes (SetFolderPassword d now i pw) = t_notes d
   \<and> t_notes (DeleteFolder d now i) = t_notes d"
  by (simp add: CreateNote_def CreateNoteInFolder_def UpdateNote_def DeleteNote_def
      SetNotePassword_def CreateFolder_def SetFolderPassword_def DeleteFolder_def Let_def)

subsection \<open>Timestamps stored by the remote upsert\<close>

lemma Unix_time_Unix [simp]: "Unix (time_Unix s) = s"
  by (simp add: Unix_def time_Unix_def)

lemma UpsertNote_stamps:
  "map sn_CreatedAt (s_notes (snd (UpsertNote sdb fresh u i0 ttl cnt tgs p c t))) =
     (if list_ex (\<lambda>n. sn_ID n = (if i0 = [] then fresh else i0)) (s_notes sdb)
      then map sn_CreatedAt (s_notes sdb) else map sn_CreatedAt (s_notes sdb) @ [c])"
  "map sn_UpdatedAt (s_notes (snd (UpsertNote sdb fresh u i0 ttl cnt tgs p c t))) =
     (if list_ex (\<lambda>n. sn_ID n = (if i0 = [] then fresh else i0)) (s_notes sdb)
      then map (\<lambda>n. if sn_ID n = (if i0 = [] then fresh else i0) \<and> sn_UserID n = u
                     then t else sn_UpdatedAt n) (s_notes sdb)
      else map sn_UpdatedAt (s_notes sdb) @ [t])"
  by (simp_all add: UpsertNote_def Let_def o_def)

lemma UpsertFolder_stamps:
  "map sf_CreatedAt (s_folders (snd (UpsertFolder sdb fresh u i0 ttl p c t))) =
     (if list_ex (\<lambda>f. sf_ID f = (if i0 = [] then fresh else i0)) (s_folders sdb)
      then map sf_CreatedAt (s_folders sdb) else map sf_CreatedAt (s_folders sdb) @ [c])"
  "map sf_UpdatedAt (s_folders (snd (UpsertFolder sdb fresh u i0 ttl p c t))) =
     (if list_ex (\<lambda>f. sf_ID f = (if i0 = [] then fresh else i0)) (s_folders sdb)
      then map (\<lambda>f. if sf_ID f = (if i0 = [] then fresh else i0) \<and> sf_UserID f = u
                     then t else sf_UpdatedAt f) (s_folders sdb)
      else map sf_UpdatedAt (s_folders sdb) @ [t])"
  by (simp_all add: UpsertFolder_def Let_def o_def)

lemma upsertNoteHandler_snd:
  "snd (upsertNoteHandler sdb now fresh u (Some req)) =
     (if sreq_Title req = [] then sdb
      else snd (UpsertNote sdb fresh u (sreq_ID req) (sreq_Title req) (sreq_Content req)
                  (sreq_Tags req) (sreq_ParentFolderID req)
                  (if sreq_CreatedAt req > 0 then time_Unix (sreq_CreatedAt req) else now)
                  (if sreq_UpdatedAt req > 0 then time_Unix (sreq_UpdatedAt req) else now)))"
  by (simp add: upsertNoteHandler_def Let_def split: prod.splits)

lemma upsertFolderHandler_snd:
  "snd (upsertFolderHandler sdb now fresh u (Some req)) =
     (if freq_Title req = [] then sdb
      else snd (UpsertFolder sdb fresh u (freq_ID req) (freq_Title req) (freq_ParentFolderID req)
                  (if freq_CreatedAt req > 0 then time_Unix (freq_CreatedAt req) else now)
                  (if freq_UpdatedAt req > 0 then time_Unix (freq_UpdatedAt req) else now)))"
  by (simp add: upsertFolderHandler_def Let_def split: prod.splits)

text \<open>
  Claim C3 as stated fails: a new note sent with \<open>created_at = 100\<close> and
  \<open>updated_at = 200\<close> while the server's clock reads 5000 is stored with the request's
  two values, not with the server's clock.
\<close>

theorem C3_counterexample:
  "map (\<lambda>n. (sn_CreatedAt n, sn_UpdatedAt n))
     (filter (\<lambda>n. sn_ID n = ''u-2'')
        (s_notes (snd (upsertNoteHandler ex_sdb (time_Unix 5000) ''u-2'' 2 (Some ex_req_new)))))
     = [(time_Unix (sreq_CreatedAt ex_req_new), time_Unix (sreq_UpdatedAt ex_req_new))]
   \<and> time_Unix (sreq_CreatedAt ex_req_new) \<noteq> time_Unix 5000
   \<and> time_Unix (sreq_UpdatedAt ex_req_new) \<noteq> time_Unix 5000"
  by (simp add: upsertNoteHandler_def UpsertNote_def ex_sdb_def ex_req_new_def time_Unix_def Let_def)

text \<open>
  Claim C3, amended. For a note and for a folder alike, the handler stores the request's
  \<open>created_at\<close> and \<open>updated_at\<close> whenever they are positive and the server's clock
  only when they are not. A row that is inserted gets both; a row that exists and
  belongs to the caller gets the new \<open>updated_at\<close> and keeps its \<open>created_at\<close>; every
  other row keeps both.
\<close>

theorem C3_stored_timestamps:
  "(let i = (if sreq_ID req = [] then fresh else sreq_ID req);
        c = (if sreq_CreatedAt req > 0 then time_Unix (sreq_CreatedAt req) else now);
        t = (if sreq_UpdatedAt req > 0 then time_Unix (sreq_UpdatedAt req) else now);
        sdb' = snd (upsertNoteHandler sdb now fresh u (Some req))
    in map sn_CreatedAt (s_notes sdb') =
         (if sreq_Title req \<noteq> [] \<and> \<not> list_ex (\<lambda>n. sn_ID n = i) (s_notes sdb)
          then map sn_CreatedAt (s_notes sdb) @ [c] else map sn_CreatedAt (s_notes sdb))
       \<and> map sn_UpdatedAt (s_notes sdb') =
         (if sreq_Title req = [] then map sn_UpdatedAt (s_notes sdb)
          else if list_ex (\<lambda>n. sn_ID n = i) (s_notes sdb)
          then map (\<lambda>n. if sn_ID n = i \<and> sn_UserID n = u then t else sn_UpdatedAt n) (s_notes sdb)
          else map sn_UpdatedAt (s_notes sdb) @ [t]))
   \<and> (let i = (if freq_ID freq = [] then fresh else freq_ID freq);
        c = (if freq_CreatedAt freq > 0 then time_Unix (freq_CreatedAt freq) else now);
        t = (if freq_UpdatedAt freq > 0 then time_Unix (freq_UpdatedAt freq) else now);
        sdb' = snd (upsertFolderHandler sdb now fresh u (Some freq))
    in map sf_CreatedAt (s_folders sdb') =
         (if freq_Title freq \<noteq> [] \<and> \<not> list_ex (\<lambda>f. sf_ID f = i) (s_folders sdb)
          then map sf_CreatedAt (s_folders sdb) @ [c] else map sf_CreatedAt (s_folders sdb))
       \<and> map sf_UpdatedAt (s_folders sdb') =
         (if freq_Title freq = [] then map sf_UpdatedAt (s_folders sdb)
          else if list_ex (\<lambda>f. sf_ID f = i) (s_folders sdb)
          then map (\<lambda>f. if sf_ID f = i \<and> sf_UserID f = u then t else sf_UpdatedAt f) (s_folders sdb)
          else map sf_UpdatedAt (s_folders sdb) @ [t]))"
  unfolding Let_def upsertNoteHandler_snd upsertFolderHandler_snd
  by (simp only: UpsertNote_stamps UpsertFolder_stamps if_distrib[of s_notes] if_distrib[of s_folders]
      if_distrib[of "map sn_CreatedAt"] if_distrib[of "map sn_UpdatedAt"]
      if_distrib[of "map sf_CreatedAt"] if_distrib[of "map sf_UpdatedAt"]) simp

subsection \<open>Ownership in the remote store\<close>

lemma find_conj_filter: "find (\<lambda>x. P x \<and> Q x) xs = find P (filter Q xs)"
  by (induction xs) auto

lemma filter_filter_absorb: "(\<And>x. P x \<Longrightarrow> Q x) \<Longrightarrow> filter P (filter Q xs) = filter P xs"
  by (induction xs) auto

lemma UpsertNote_others:
  "filter (\<lambda>n. sn_UserID n \<noteq> u) (s_notes (snd (UpsertNote sdb fresh u i ttl cnt tgs p c t)))
     = filter (\<lambda>n. sn_UserID n \<noteq> u) (s_notes sdb)"
proof -
  have "filter (\<lambda>n. sn_UserID n \<noteq> u)
          (map (\<lambda>n. if sn_ID n = j \<and> sn_UserID n = u
                      then n\<lparr>sn_Title := ttl, sn_Content := cnt, sn_Tags := tgs,
                             sn_ParentFolderID := p, sn_UpdatedAt := t\<rparr> else n) xs)
        = filter (\<lambda>n. sn_UserID n \<noteq> u) xs" for j and xs :: "ServerNote list"
    by (induction xs) auto
  then show ?thesis
    by (simp add: UpsertNote_def Let_def)
qed

lemma UpsertNote_folders: "s_folders (snd (UpsertNote sdb fresh u i ttl cnt tgs p c t)) = s_folders sdb"
  by (simp add: UpsertNote_def Let_def)

lemma DeleteNote_others:
  "filter (\<lambda>n. sn_UserID n \<noteq> u) (s_notes (ServerDB_DeleteNote sdb i u))
     = filter (\<lambda>n. sn_UserID n \<noteq> u) (s_notes sdb)"
  unfolding ServerDB_DeleteNote_def by (simp del: filter_filter) (rule filter_filter_absorb, simp)

lemma UpsertFolder_others:
  "filter (\<lambda>f. sf_UserID f \<noteq> u) (s_folders (snd (UpsertFolder sdb fresh u i ttl p c t)))
     = filter (\<lambda>f. sf_UserID f \<noteq> u) (s_folders sdb)"
proof -
  have "filter (\<lambda>f. sf_UserID f \<noteq> u)
          (map (\<lambda>f. if sf_ID f = j \<and> sf_UserID f = u
                      then f\<lparr>sf_Title := ttl, sf_ParentFolderID := p, sf_UpdatedAt := t\<rparr>
                      else f) xs)
        = filter (\<lambda>f. sf_UserID f \<noteq> u) xs" for j and xs :: "ServerFolder list"
    by (induction xs) auto
  then show ?thesis
    by (simp add: UpsertFolder_def Let_def)
qed

lemma DeleteFolder_others:
  "filter (\<lambda>f. sf_UserID f \<noteq> u) (s_folders (ServerDB_DeleteFolder sdb i u))
     = filter (\<lambda>f. sf_UserID f \<noteq> u) (s_folders sdb)"
  unfolding ServerDB_DeleteFolder_def by (simp del: filter_filter) (rule filter_filter_absorb, simp)
lemma own_rows_from_others:
  fixes xs ys :: "ServerNote list"
  assumes "u \<noteq> v"
    and "filter (\<lambda>n. sn_UserID n \<noteq> u) xs = filter (\<lambda>n. sn_UserID n \<noteq> u) ys"
  shows "filter (\<lambda>n. sn_UserID n = v) xs = filter (\<lambda>n. sn_UserID n = v) ys"
proof -
  have "filter (\<lambda>n. sn_UserID n = v) zs = filter (\<lambda>n. sn_UserID n = v) (filter (\<lambda>n. sn_UserID n \<noteq> u) zs)"
    for zs :: "ServerNote list"
    using assms(1) by (intro filter_filter_absorb[symmetric]) simp
  from this[of xs] this[of ys] show ?thesis
    using assms(2) by simp
qed

lemma own_folders_from_others:
  fixes xs ys :: "ServerFolder list"
  assumes "u \<noteq> v"
    and "filter (\<lambda>f. sf_UserID f \<noteq> u) xs = filter (\<lambda>f. sf_UserID f \<noteq> u) ys"
  shows "filter (\<lambda>f. sf_UserID f = v) xs = filter (\<lambda>f. sf_UserID f = v) ys"
proof -
  have "filter (\<lambda>f. sf_UserID f = v) zs = filter (\<lambda>f. sf_UserID f = v) (filter (\<lambda>f. sf_UserID f \<noteq> u) zs)"
    for zs :: "ServerFolder list"
    using assms(1) by (intro filter_filter_absorb[symmetric]) simp
  from this[of xs] this[of ys] show ?thesis
    using assms(2) by simp
qed

lemma note_reads_by_own_rows:
  "ListNotesByUser sdb v = sort_key (\<lambda>n. - sn_UpdatedAt n) (notes_of sdb v)"
  "GetNotesSince sdb v since =
     sort_key (\<lambda>n. - sn_UpdatedAt n) (filter (\<lambda>n. sn_UpdatedAt n > since) (notes_of sdb v))"
  "ServerDB_GetNote sdb i v = find (\<lambda>n. sn_ID n = i) (notes_of sdb v)"
  by (simp_all add: ListNotesByUser_def GetNotesSince_def ServerDB_GetNote_def notes_of_def
      find_conj_filter)

lemma folder_reads_by_own_rows:
  "ListFoldersByUser sdb v = sort_key sf_Title (folders_of sdb v)"
  "GetFoldersSince sdb v since =
     sort_key (\<lambda>f. - sf_UpdatedAt f) (filter (\<lambda>f. sf_UpdatedAt f > since) (folders_of sdb v))"
  "ServerDB_GetFolder sdb i v = find (\<lambda>f. sf_ID f = i) (folders_of sdb v)"
  by (simp_all add: ListFoldersByUser_def GetFoldersSince_def ServerDB_GetFolder_def folders_of_def
      find_conj_filter)
lemma note_reads_cong: "notes_of sdb' v = notes_of sdb v \<Longrightarrow> note_reads sdb' v since i = note_reads sdb v since i"
  by (simp add: note_reads_def note_reads_by_own_rows)

lemma folder_reads_cong:
  "folders_of sdb' v = folders_of sdb v \<Longrightarrow> folder_reads sdb' v since i = folder_reads sdb v since i"
  by (simp add: folder_reads_def folder_reads_by_own_rows)

lemma find_Some_holds: "find P xs = Some x \<Longrightarrow> P x"
  by (induction xs) (auto split: if_splits)

lemma note_reads_own:
  "list_all (\<lambda>n. sn_UserID n = u) (ListNotesByUser sdb u)"
  "list_all (\<lambda>n. sn_UserID n = u) (GetNotesSince sdb u since)"
  "(case ServerDB_GetNote sdb i u of None \<Rightarrow> True | Some n \<Rightarrow> sn_UserID n = u)"
  by (auto simp: ListNotesByUser_def GetNotesSince_def ServerDB_GetNote_def list_all_iff
      split: option.splits dest: find_Some_holds)

lemma folder_reads_own:
  "list_all (\<lambda>f. sf_UserID f = u) (ListFoldersByUser sdb u)"
  "list_all (\<lambda>f. sf_UserID f = u) (GetFoldersSince sdb u since)"
  "(case ServerDB_GetFolder sdb i u of None \<Rightarrow> True | Some f \<Rightarrow> sf_UserID f = u)"
  by (auto simp: ListFoldersByUser_def GetFoldersSince_def ServerDB_GetFolder_def list_all_iff
      split: option.splits dest: find_Some_holds)

lemma UpsertNote_fst:
  "fst (UpsertNote sdb fresh u i ttl cnt tgs p c t) =
     \<lparr>sn_ID = (if i = [] then fresh else i), sn_UserID = u, sn_Title = ttl, sn_Content = cnt,
      sn_Tags = tgs, sn_ParentFolderID = p, sn_CreatedAt = c, sn_UpdatedAt = t\<rparr>"
  by (simp add: UpsertNote_def Let_def)

lemma UpsertFolder_fst:
  "fst (UpsertFolder sdb fresh u i ttl p c t) =
     \<lparr>sf_ID = (if i = [] then fresh else i), sf_UserID = u, sf_Title = ttl,
      sf_ParentFolderID = p, sf_CreatedAt = c, sf_UpdatedAt = t\<rparr>"
  by (simp add: UpsertFolder_def Let_def)

lemma UpsertNote_foreign_noop:
  assumes "distinct (map sn_ID (s_notes sdb))" "n \<in> set (s_notes sdb)" "sn_ID n = i" "i \<noteq> []"
    "sn_UserID n \<noteq> u"
  shows "snd (UpsertNote sdb fresh u i ttl cnt tgs p c t) = sdb"
proof -
  have ex: "list_ex (\<lambda>m. sn_ID m = i) (s_notes sdb)"
    using assms(2,3) by (auto simp: list_ex_iff)
  have "\<And>m. m \<in> set (s_notes sdb) \<Longrightarrow> sn_ID m = i \<Longrightarrow> m = n"
    using assms(1,2,3) by (metis distinct_map inj_onD)
  then have "map (\<lambda>m. if sn_ID m = i \<and> sn_UserID m = u
                then m\<lparr>sn_Title := ttl, sn_Content := cnt, sn_Tags := tgs,
                       sn_ParentFolderID := p, sn_UpdatedAt := t\<rparr> else m) (s_notes sdb)
             = s_notes sdb"
    using assms(5) by (intro map_idI) auto
  then show ?thesis
    using ex assms(4) by (simp add: UpsertNote_def)
qed

lemma UpsertFolder_foreign_noop:
  assumes "distinct (map sf_ID (s_folders sdb))" "f \<in> set (s_folders sdb)" "sf_ID f = i" "i \<noteq> []"
    "sf_UserID f \<noteq> u"
  shows "snd (UpsertFolder sdb fresh u i ttl p c t) = sdb"
proof -
  have ex: "list_ex (\<lambda>m. sf_ID m = i) (s_folders sdb)"
    using assms(2,3) by (auto simp: list_ex_iff)
  have "\<And>m. m \<in> set (s_folders sdb) \<Longrightarrow> sf_ID m = i \<Longrightarrow> m = f"
    using assms(1,2,3) by (metis distinct_map inj_onD)
  then have "map (\<lambda>m. if sf_ID m = i \<and> sf_UserID m = u
                then m\<lparr>sf_Title := ttl, sf_ParentFolderID := p, sf_UpdatedAt := t\<rparr> else m)
               (s_folders sdb)
             = s_folders sdb"
    using assms(5) by (intro map_idI) auto
  then show ?thesis
    using ex assms(4) by (simp add: UpsertFolder_def)
qed

text \<open>
  The notes table and the folders table keep to their owners. For two distinct users
  \<open>u\<close> and \<open>v\<close>: what \<open>u\<close> lists or gets are rows of \<open>u\<close> only; a delete or an upsert
  by \<open>u\<close> leaves the rows of \<open>v\<close>, and so everything \<open>v\<close> reads, as they were; and an
  upsert by \<open>u\<close> that names the id of a row of \<open>v\<close> changes nothing in the database and
  returns its ordinary result, not an error.
\<close>

theorem notes_and_folders_owner_scoping:
  assumes "u \<noteq> v"
  shows
    "list_all (\<lambda>n. sn_UserID n = u) (ListNotesByUser sdb u)
     \<and> list_all (\<lambda>n. sn_UserID n = u) (GetNotesSince sdb u since)
     \<and> (case ServerDB_GetNote sdb i u of None \<Rightarrow> True | Some n \<Rightarrow> sn_UserID n = u)
     \<and> notes_of (ServerDB_DeleteNote sdb j u) v = notes_of sdb v
     \<and> note_reads (ServerDB_DeleteNote sdb j u) v since i = note_reads sdb v since i
     \<and> notes_of (snd (UpsertNote sdb fresh u j ttl cnt tgs p c t)) v = notes_of sdb v
     \<and> note_reads (snd (UpsertNote sdb fresh u j ttl cnt tgs p c t)) v since i
         = note_reads sdb v since i
     \<and> (j \<noteq> [] \<and> distinct (map sn_ID (s_notes sdb)) \<and> n \<in> set (s_notes sdb) \<and> sn_ID n = j
          \<and> sn_UserID n = v \<longrightarrow>
        UpsertNote sdb fresh u j ttl cnt tgs p c t =
          (\<lparr>sn_ID = j, sn_UserID = u, sn_Title = ttl, sn_Content = cnt, sn_Tags = tgs,
            sn_ParentFolderID = p, sn_CreatedAt = c, sn_UpdatedAt = t\<rparr>, sdb))
     \<and> list_all (\<lambda>f. sf_UserID f = u) (ListFoldersByUser sdb u)
     \<and> list_all (\<lambda>f. sf_UserID f = u) (GetFoldersSince sdb u since)
     \<and> (case ServerDB_GetFolder sdb i u of None \<Rightarrow> True | Some f \<Rightarrow> sf_UserID f = u)
     \<and> folders_of (ServerDB_DeleteFolder sdb j u) v = folders_of sdb v
     \<and> folder_reads (ServerDB_DeleteFolder sdb j u) v since i = folder_reads sdb v since i
     \<and> folders_of (snd (UpsertFolder sdb fresh u j ttl p c t)) v = folders_of sdb v
     \<and> folder_reads (snd (UpsertFolder sdb fresh u j ttl p c t)) v since i
         = folder_reads sdb v since i
     \<and> (j \<noteq> [] \<and> distinct (map sf_ID (s_folders sdb)) \<and> f \<in> set (s_folders sdb) \<and> sf_ID f = j
          \<and> sf_UserID f = v \<longrightarrow>
        UpsertFolder sdb fresh u j ttl p c t =
          (\<lparr>sf_ID = j, sf_UserID = u, sf_Title = ttl, sf_ParentFolderID = p,
            sf_CreatedAt = c, sf_UpdatedAt = t\<rparr>, sdb))"
proof -
  have dn: "notes_of (ServerDB_DeleteNote sdb j u) v = notes_of sdb v"
    unfolding notes_of_def by (rule own_rows_from_others[OF assms DeleteNote_others])
  have un: "notes_of (snd (UpsertNote sdb fresh u j ttl cnt tgs p c t)) v = notes_of sdb v"
    unfolding notes_of_def by (rule own_rows_from_others[OF assms UpsertNote_others])
  have df: "folders_of (ServerDB_DeleteFolder sdb j u) v = folders_of sdb v"
    unfolding folders_of_def by (rule own_folders_from_others[OF assms DeleteFolder_others])
  have uf: "folders_of (snd (UpsertFolder sdb fresh u j ttl p c t)) v = folders_of sdb v"
    unfolding folders_of_def by (rule own_folders_from_others[OF assms UpsertFolder_others])
  have nn: "j \<noteq> [] \<and> distinct (map sn_ID (s_notes sdb)) \<and> n \<in> set (s_notes sdb) \<and> sn_ID n = j
          \<and> sn_UserID n = v \<longrightarrow>
        UpsertNote sdb fresh u j ttl cnt tgs p c t =
          (\<lparr>sn_ID = j, sn_UserID = u, sn_Title = ttl, sn_Content = cnt, sn_Tags = tgs,
            sn_ParentFolderID = p, sn_CreatedAt = c, sn_UpdatedAt = t\<rparr>, sdb)"
  proof
    assume a: "j \<noteq> [] \<and> distinct (map sn_ID (s_notes sdb)) \<and> n \<in> set (s_notes sdb) \<and> sn_ID n = j
          \<and> sn_UserID n = v"
    then have "snd (UpsertNote sdb fresh u j ttl cnt tgs p c t) = sdb"
      using assms by (intro UpsertNote_foreign_noop[where n = n]) auto
    moreover have "fst (UpsertNote sdb fresh u j ttl cnt tgs p c t) =
        \<lparr>sn_ID = j, sn_UserID = u, sn_Title = ttl, sn_Content = cnt, sn_Tags = tgs,
            sn_ParentFolderID = p, sn_CreatedAt = c, sn_UpdatedAt = t\<rparr>"
      using a by (simp add: UpsertNote_fst)
    ultimately show "UpsertNote sdb fresh u j ttl cnt tgs p c t =
          (\<lparr>sn_ID = j, sn_UserID = u, sn_Title = ttl, sn_Content = cnt, sn_Tags = tgs,
            sn_ParentFolderID = p, sn_CreatedAt = c, sn_UpdatedAt = t\<rparr>, sdb)"
      by (simp add: prod_eq_iff)
  qed
  have nf: "j \<noteq> [] \<and> distinct (map sf_ID (s_folders sdb)) \<and> f \<in> set (s_folders sdb) \<and> sf_ID f = j
          \<and> sf_UserID f = v \<longrightarrow>
        UpsertFolder sdb fresh u j ttl p c t =
          (\<lparr>sf_ID = j, sf_UserID = u, sf_Title = ttl, sf_ParentFolderID = p,
            sf_CreatedAt = c, sf_UpdatedAt = t\<rparr>, sdb)"
  proof
    assume a: "j \<noteq> [] \<and> distinct (map sf_ID (s_folders sdb)) \<and> f \<in> set (s_folders sdb) \<and> sf_ID f = j
          \<and> sf_UserID f = v"
    then have "snd (UpsertFolder sdb fresh u j ttl p c t) = sdb"
      using assms by (intro UpsertFolder_foreign_noop[where f = f]) auto
    moreover have "fst (UpsertFolder sdb fresh u j ttl p c t) =
        \<lparr>sf_ID = j, sf_UserID = u, sf_Title = ttl, sf_ParentFolderID = p,
            sf_CreatedAt = c, sf_UpdatedAt = t\<rparr>"
      using a by (simp add: UpsertFolder_fst)
    ultimately show "UpsertFolder sdb fresh u j ttl p c t =
          (\<lparr>sf_ID = j, sf_UserID = u, sf_Title = ttl, sf_ParentFolderID = p,
            sf_CreatedAt = c, sf_UpdatedAt = t\<rparr>, sdb)"
      by (simp add: prod_eq_iff)
  qed
  show ?thesis
    by (intro conjI note_reads_own folder_reads_own dn un df uf nn nf
        note_reads_cong[OF dn] note_reads_cong[OF un] folder_reads_cong[OF df]
        folder_reads_cong[OF uf])
qed

theorem notes_and_folders_owner_scoping_witness:
  "(2::int) \<noteq> 1
   \<and> UpsertNote ex_sdb ''u-2'' 2 ''n1'' ''Theirs'' ''x'' ''[]'' [] (time_Unix 100) (time_Unix 200)
       = (\<lparr>sn_ID = ''n1'', sn_UserID = 2, sn_Title = ''Theirs'', sn_Content = ''x'',
           sn_Tags = ''[]'', sn_ParentFolderID = [], sn_CreatedAt = time_Unix 100,
           sn_UpdatedAt = time_Unix 200\<rparr>, ex_sdb)
   \<and> notes_of (ServerDB_DeleteNote ex_sdb ''n1'' 2) 1 = s_notes ex_sdb
   \<and> ListNotesByUser ex_sdb 2 = []
   \<and> UpsertFolder ex_sdb ''u-2'' 2 ''f1'' ''Theirs'' [] (time_Unix 100) (time_Unix 200)
       = (\<lparr>sf_ID = ''f1'', sf_UserID = 2, sf_Title = ''Theirs'', sf_ParentFolderID = [],
           sf_CreatedAt = time_Unix 100, sf_UpdatedAt = time_Unix 200\<rparr>, ex_sdb)"
  using notes_and_folders_owner_scoping [where u = 2 and v = 1 and sdb = ex_sdb and j = "''n1''"
      and n = "hd (s_notes ex_sdb)" and fresh = "''u-2''" and ttl = "''Theirs''" and cnt = "''x''"
      and tgs = "''[]''" and p = "[]" and c = "time_Unix 100" and t = "time_Unix 200"]
    notes_and_folders_owner_scoping [where u = 2 and v = 1 and sdb = ex_sdb and j = "''f1''"
      and f = "hd (s_folders ex_sdb)" and fresh = "''u-2''" and ttl = "''Theirs''"
      and p = "[]" and c = "time_Unix 100" and t = "time_Unix 200"]
  by (simp add: ex_sdb_def notes_of_def ListNotesByUser_def)

text \<open>
  Claim C6 holds on notes and folders, as shown above, and fails on the version rows of
  the remote store. \<open>UpsertVersion\<close> by user 2, naming the id of a version row of user
  1, overwrites that row's title, content, tags and hash; the row stays user 1's, and
  user 1 then reads user 2's content. The upserts of notes and folders carry the guard
  \<open>WHERE user_id = ?\<close>; this one does not.
\<close>

theorem C6_UpsertVersion_overwrites_foreign_row:
  "map (\<lambda>v. (snv_ID v, snv_UserID v, snv_Title v, snv_Content v)) (s_note_versions ex_sdb)
     = [(''v1'', 1, ''Mine'', ''secret'')]
   \<and> map (\<lambda>v. (snv_ID v, snv_UserID v, snv_Title v, snv_Content v))
        (s_note_versions
           (snd (UpsertVersion ex_sdb ''u-2'' 2 ''v1'' ''n1'' ''Theirs'' ''x'' ''[]'' ''bbbbbbbbbbbb'' 1
                   (time_Unix 100))))
     = [(''v1'', 1, ''Theirs'', ''x'')]
   \<and> map snv_Content
        (ListVersionsByNote
           (snd (UpsertVersion ex_sdb ''u-2'' 2 ''v1'' ''n1'' ''Theirs'' ''x'' ''[]'' ''bbbbbbbbbbbb'' 1
                   (time_Unix 100))) ''n1'' 1)
     = [''x'']"
  by (simp add: UpsertVersion_def ListVersionsByNote_def ex_sdb_def Let_def)

subsection \<open>The response of the upsert handler\<close>

text \<open>
  Claim C10 as stated fails: the response does not always repeat the submitted
  timestamps. User 2 submits a titled request for the id of user 1's note with
  \<open>created_at = 0\<close> and \<open>updated_at = -5\<close> while the server's clock reads 5000
  seconds. The write is suppressed and the stored row keeps its owner's values, the
  answer is a 200, and both timestamps of its body are 5000, the server's clock and
  not the submitted values.
\<close>

theorem C10_counterexample:
  "sreq_CreatedAt ex_req_unstamped = 0 \<and> sreq_UpdatedAt ex_req_unstamped = - 5
   \<and> upsertNoteHandler ex_sdb (time_Unix 5000) ''u-2'' 2 (Some ex_req_unstamped) =
       (jsonResponse
          \<lparr>sresp_ID = ''n1'', sresp_Title = ''Theirs'', sresp_Content = ''x'', sresp_Tags = ''[]'',
           sresp_ParentFolderID = [], sresp_CreatedAt = 5000, sresp_UpdatedAt = 5000\<rparr> 200,
        ex_sdb)
   \<and> map (\<lambda>n. (sn_UserID n, sn_Title n, sn_Content n)) (s_notes ex_sdb) = [(1, ''Mine'', ''secret'')]"
  by (simp add: upsertNoteHandler_def UpsertNote_def ex_sdb_def ex_req_unstamped_def Let_def)

text \<open>
  Claim C10, amended. The response of the handler does not depend on the database at
  all. For a request with a title it is a 200 whose body is built from the request and
  the server's clock, never from the stored row: the submitted id (the fresh UUID for an
  empty id), title, content, tags and parent folder, and each submitted timestamp when
  it is positive, the server's clock otherwise. When the id named is that of another
  user's row, the database stays as it was, so the stored row keeps its owner's values.
  (An untitled or undecodable request is answered 400 and changes nothing.)
\<close>

theorem C10_response_echoes_request:
  "fst (upsertNoteHandler sdb now fresh u body) = fst (upsertNoteHandler sdb2 now fresh u body)
   \<and> (sreq_Title req \<noteq> [] \<longrightarrow>
        fst (upsertNoteHandler sdb now fresh u (Some req)) =
          jsonResponse
            \<lparr>sresp_ID = (if sreq_ID req = [] then fresh else sreq_ID req),
             sresp_Title = sreq_Title req, sresp_Content = sreq_Content req,
             sresp_Tags = sreq_Tags req, sresp_ParentFolderID = sreq_ParentFolderID req,
             sresp_CreatedAt = (if sreq_CreatedAt req > 0 then sreq_CreatedAt req else Unix now),
             sresp_UpdatedAt = (if sreq_UpdatedAt req > 0 then sreq_UpdatedAt req else Unix now)\<rparr>
            200)
   \<and> (sreq_Title req \<noteq> [] \<and> sreq_ID req \<noteq> [] \<and> distinct (map sn_ID (s_notes sdb))
        \<and> n \<in> set (s_notes sdb) \<and> sn_ID n = sreq_ID req \<and> sn_UserID n \<noteq> u \<longrightarrow>
        snd (upsertNoteHandler sdb now fresh u (Some req)) = sdb)"
proof (intro conjI impI)
  show "fst (upsertNoteHandler sdb now fresh u body) = fst (upsertNoteHandler sdb2 now fresh u body)"
    by (simp add: upsertNoteHandler_def UpsertNote_def Let_def split: option.splits)
next
  assume "sreq_Title req \<noteq> []"
  then show "fst (upsertNoteHandler sdb now fresh u (Some req)) =
          jsonResponse
            \<lparr>sresp_ID = (if sreq_ID req = [] then fresh else sreq_ID req),
             sresp_Title = sreq_Title req, sresp_Content = sreq_Content req,
             sresp_Tags = sreq_Tags req, sresp_ParentFolderID = sreq_ParentFolderID req,
             sresp_CreatedAt = (if sreq_CreatedAt req > 0 then sreq_CreatedAt req else Unix now),
             sresp_UpdatedAt = (if sreq_UpdatedAt req > 0 then sreq_UpdatedAt req else Unix now)\<rparr>
            200"
    by (simp add: upsertNoteHandler_def UpsertNote_def Let_def)
next
  assume a: "sreq_Title req \<noteq> [] \<and> sreq_ID req \<noteq> [] \<and> distinct (map sn_ID (s_notes sdb))
        \<and> n \<in> set (s_notes sdb) \<and> sn_ID n = sreq_ID req \<and> sn_UserID n \<noteq> u"
  then have "snd (UpsertNote sdb fresh u (sreq_ID req) (sreq_Title req) (sreq_Content req)
                  (sreq_Tags req) (sreq_ParentFolderID req) c t) = sdb" for c t
    by (intro UpsertNote_foreign_noop[where n = n]) auto
  with a show "snd (upsertNoteHandler sdb now fresh u (Some req)) = sdb"
    by (simp add: upsertNoteHandler_snd)
qed

theorem C10_response_echoes_request_witness:
  "upsertNoteHandler ex_sdb (time_Unix 5000) ''u-2'' 2 (Some ex_req) =
     (jsonResponse
        \<lparr>sresp_ID = ''n1'', sresp_Title = ''Theirs'', sresp_Content = ''x'', sresp_Tags = ''[]'',
         sresp_ParentFolderID = [], sresp_CreatedAt = 100, sresp_UpdatedAt = 200\<rparr> 200,
      ex_sdb)
   \<and> map sn_Title (s_notes ex_sdb) = [''Mine'']"
  using C10_response_echoes_request [where sdb = ex_sdb and now = "time_Unix 5000"
      and fresh = "''u-2''" and u = 2 and req = ex_req and n = "hd (s_notes ex_sdb)"]
  by (simp add: ex_sdb_def ex_req_def prod_eq_iff)

subsection \<open>Restoring a version\<close>

text \<open>
  Claim C7. \<open>RestoreNoteVersion\<close> never changes the \<open>note_versions\<close> table or its
  counter. When the version exists (and its stored tags text is one that decoding and
  encoding give back, as every text written by \<open>SaveNoteVersion\<close> is), the call returns
  no error and the rows of the note get the version's title, content and tags, the
  clock as \<open>updated_at\<close> and the status pending; every other row is as before. When no
  version has that id, the call returns the error and changes nothing.
\<close>

theorem C7_restore_keeps_history:
  "t_note_versions (snd (RestoreNoteVersion marshal unmarshal d now noteID versionID))
     = t_note_versions d
   \<and> seq_note_versions (snd (RestoreNoteVersion marshal unmarshal d now noteID versionID))
     = seq_note_versions d
   \<and> (find (\<lambda>v. v_id v = versionID) (t_note_versions d) = Some v \<and> v_tags v = Some t
        \<and> marshal (unmarshal t) = t \<longrightarrow>
      RestoreNoteVersion marshal unmarshal d now noteID versionID =
        (None, d\<lparr>t_notes := map (\<lambda>r. if n_id r = noteID
                                       then r\<lparr>n_title := v_title v, n_content := v_content v,
                                              n_tags := Some t,
                                              n_updated_at := CURRENT_TIMESTAMP now,
                                              n_sync_status := SyncStatusPending\<rparr>
                                       else r) (t_notes d)\<rparr>))
   \<and> (find (\<lambda>v. v_id v = versionID) (t_note_versions d) = None \<longrightarrow>
      RestoreNoteVersion marshal unmarshal d now noteID versionID = (Some ErrNoRows, d))"
  by (simp add: RestoreNoteVersion_def GetNoteVersion_def scan_NoteVersion_def Let_def
      split: option.splits sum.splits)

theorem C7_restore_keeps_history_witness:
  "RestoreNoteVersion ex_marshal ex_unmarshal ex_db_versions (time_Unix 5000) 1 2 =
     (None, ex_db_versions\<lparr>t_notes :=
        [ex_note\<lparr>n_title := ''T2'', n_content := ''c2'', n_tags := Some ''[]'',
                 n_updated_at := time_Unix 5000, n_sync_status := SyncStatusPending\<rparr>]\<rparr>)
   \<and> t_note_versions
        (snd (RestoreNoteVersion ex_marshal ex_unmarshal ex_db_versions (time_Unix 5000) 1 2))
      = ex_versions
   \<and> RestoreNoteVersion ex_marshal ex_unmarshal ex_db_versions (time_Unix 5000) 1 7 =
     (Some ErrNoRows, ex_db_versions)"
  using C7_restore_keeps_history [where marshal = ex_marshal and unmarshal = ex_unmarshal
      and d = ex_db_versions and now = "time_Unix 5000" and noteID = 1 and versionID = 2
      and v = "ex_versions ! Suc 0" and t = "''[]''"]
    C7_restore_keeps_history [where marshal = ex_marshal and unmarshal = ex_unmarshal
      and d = ex_db_versions and now = "time_Unix 5000" and noteID = 1 and versionID = 7]
  by (simp add: ex_db_versions_def ex_versions_def ex_db_def ex_note_def ex_marshal_def
      ex_unmarshal_def CURRENT_TIMESTAMP_def)

subsection \<open>The download phase\<close>



lemma filter_not_map_upd:
  "(\<And>r. P (g r) = P r) \<Longrightarrow>
     filter (\<lambda>r. \<not> P r) (map (\<lambda>r. if P r then g r else r) xs) = filter (\<lambda>r. \<not> P r) xs"
  by (induction xs) auto


















subsection \<open>The checkpoint\<close>

lemma download_Errors:
  "Errors (fst (snd (download unmarshal serverNotes st))) = Errors (fst (snd st))"
  by (induction serverNotes arbitrary: st) (auto simp: download_note_def split: prod.splits)

lemma Sync_Errors:
  "Errors (fst (snd (Sync marshal unmarshal d client lastSync))) =
     (let up = upload marshal client (GetPendingNotes unmarshal d)
                 (d, \<lparr>Uploaded = 0, Downloaded = 0, DeletedCount = 0, Errors = []\<rparr>, [])
      in case SyncNotes_answer client (snd (snd up)) lastSync of
           Inl err \<Rightarrow> Errors (fst (snd up)) @ [err]
         | Inr serverNotes \<Rightarrow> Errors (fst (snd up)))"
  by (simp add: Sync_def Let_def download_Errors split: prod.splits sum.splits)

lemma sync_pass_saved:
  "saved_LastSync (sync_pass marshal unmarshal m now) =
     (case apiClient m of
        None \<Rightarrow> saved_LastSync m
      | Some client \<Rightarrow>
          if IsAuthenticated client
             \<and> Errors (fst (snd (Sync marshal unmarshal (m_db m) client (LastSync m)))) = []
          then Unix now else saved_LastSync m)"
  by (auto simp: sync_pass_def doSync_def Update_syncResultMsg_def Let_def
      split: option.splits prod.splits)

text \<open>
  Claim C2 as stated fails: with one live pending note whose upload the transport
  refuses, and a download fetch that succeeds with an empty list, the pass ends with
  the checkpoint in the configuration file where it was.
\<close>

theorem C2_counterexample:
  "SyncNotes_answer ex_client_refusing
       (transport_calls (snd (doSync ex_marshal ex_unmarshal ex_model))) 0 = Inr []
   \<and> saved_LastSync (sync_pass ex_marshal ex_unmarshal ex_model (time_Unix 5000))
       = saved_LastSync ex_model
   \<and> saved_LastSync ex_model \<noteq> Unix (time_Unix 5000)"
  by (simp add: sync_pass_saved Sync_Errors ex_model_def ex_client_refusing_def IsAuthenticated_def
      ex_pending_db_def ex_pending_row_def GetPendingNotes_def scan_Note_def upload_note_def
      Let_def)

text \<open>
  What the upload loop records: its calls are the calls of the pending notes in order,
  and its errors are exactly the errors that the transport answered to those calls.
\<close>

lemma upload_note_record:
  "snd (snd (upload_note marshal client n (d, res, calls))) = calls @ note_calls marshal n"
  by (simp add: upload_note_def note_calls_def upsert_request_def Let_def
      split: option.splits sum.splits)

lemma upload_note_Errors:
  "Errors (fst (snd (upload_note marshal client n (d, res, calls)))) =
     Errors res @ refusal marshal client n calls"
  by (simp add: upload_note_def refusal_def upsert_request_def Let_def
      split: option.splits sum.splits)

lemma upload_record:
  "snd (snd (upload marshal client ns (d, res, calls))) =
     calls @ concat (map (note_calls marshal) ns)"
proof (induction ns arbitrary: d res calls)
  case Nil
  show ?case by simp
next
  case (Cons n ns)
  obtain d' res' calls' where st: "upload_note marshal client n (d, res, calls) = (d', res', calls')"
    by (cases "upload_note marshal client n (d, res, calls)") auto
  have "calls' = calls @ note_calls marshal n"
    using upload_note_record[of marshal client n d res calls] by (simp add: st)
  then show ?case by (simp add: st Cons.IH)
qed

lemma upload_Errors:
  "Errors (fst (snd (upload marshal client ns (d, res, calls)))) =
     Errors res @ refusals marshal client ns calls"
proof (induction ns arbitrary: d res calls)
  case Nil
  show ?case by simp
next
  case (Cons n ns)
  obtain d' res' calls' where st: "upload_note marshal client n (d, res, calls) = (d', res', calls')"
    by (cases "upload_note marshal client n (d, res, calls)") auto
  have c: "calls' = calls @ note_calls marshal n"
    using upload_note_record[of marshal client n d res calls] by (simp add: st)
  have e: "Errors res' = Errors res @ refusal marshal client n calls"
    using upload_note_Errors[of marshal client n d res calls] by (simp add: st)
  show ?case by (simp add: st Cons.IH c e)
qed

lemma refusals_append:
  "refusals marshal client (ns @ ms) calls =
     refusals marshal client ns calls
       @ refusals marshal client ms (calls @ concat (map (note_calls marshal) ns))"
  by (induction ns arbitrary: calls) auto

text \<open>
  Claim C2, amended. The pass writes the checkpoint (the clock, in seconds, at the time
  the result is handled) exactly when there is an authenticated client, the transport
  refused no delete and no upsert of a pending note during the upload, and the download
  fetch, made after the calls of the upload, succeeded. Otherwise the stored checkpoint
  is as before. In particular, one pending note whose delete or upsert is refused keeps
  the checkpoint where it was, whatever the fetch answers; so does a fetch that fails.
\<close>

theorem C2_checkpoint_needs_no_error:
  "saved_LastSync (sync_pass marshal unmarshal m now) =
     (case apiClient m of
        None \<Rightarrow> saved_LastSync m
      | Some client \<Rightarrow>
          (let pending = GetPendingNotes unmarshal (m_db m)
           in if IsAuthenticated client
                 \<and> refusals marshal client pending [] = []
                 \<and> \<not> isl (SyncNotes_answer client (concat (map (note_calls marshal) pending))
                            (LastSync m))
              then Unix now else saved_LastSync m))
   \<and> (apiClient m = Some client \<and> GetPendingNotes unmarshal (m_db m) = ns @ n # ms
        \<and> refusal marshal client n (concat (map (note_calls marshal) ns)) \<noteq> [] \<longrightarrow>
      saved_LastSync (sync_pass marshal unmarshal m now) = saved_LastSync m)
   \<and> (apiClient m = Some client \<and> isl (SyncNotes_answer client
            (concat (map (note_calls marshal) (GetPendingNotes unmarshal (m_db m)))) (LastSync m)) \<longrightarrow>
      saved_LastSync (sync_pass marshal unmarshal m now) = saved_LastSync m)"
proof -
  have main: "saved_LastSync (sync_pass marshal unmarshal m now) =
     (case apiClient m of
        None \<Rightarrow> saved_LastSync m
      | Some client \<Rightarrow>
          (let pending = GetPendingNotes unmarshal (m_db m)
           in if IsAuthenticated client
                 \<and> refusals marshal client pending [] = []
                 \<and> \<not> isl (SyncNotes_answer client (concat (map (note_calls marshal) pending))
                            (LastSync m))
              then Unix now else saved_LastSync m))"
    by (auto simp: sync_pass_saved Sync_Errors upload_Errors upload_record Let_def
        split: option.splits sum.splits)
  have item: "apiClient m = Some client \<and> GetPendingNotes unmarshal (m_db m) = ns @ n # ms
        \<and> refusal marshal client n (concat (map (note_calls marshal) ns)) \<noteq> [] \<longrightarrow>
      saved_LastSync (sync_pass marshal unmarshal m now) = saved_LastSync m"
    unfolding main by (simp add: Let_def refusals_append)
  have fetch: "apiClient m = Some client \<and> isl (SyncNotes_answer client
            (concat (map (note_calls marshal) (GetPendingNotes unmarshal (m_db m)))) (LastSync m)) \<longrightarrow>
      saved_LastSync (sync_pass marshal unmarshal m now) = saved_LastSync m"
    unfolding main by (simp add: Let_def)
  show ?thesis by (intro conjI main item fetch)
qed


theorem C2_checkpoint_needs_no_error_witness:
  "GetPendingNotes ex_unmarshal (m_db ex_model) =
     [scan_Note ex_unmarshal (ex_pending_row 1 None True)]
       @ scan_Note ex_unmarshal (ex_pending_row 2 (Some ''s2'') True)
       # [scan_Note ex_unmarshal (ex_pending_row 3 None False)]
   \<and> refusal ex_marshal ex_client_refusing (scan_Note ex_unmarshal (ex_pending_row 2 (Some ''s2'') True))
         (concat (map (note_calls ex_marshal) [scan_Note ex_unmarshal (ex_pending_row 1 None True)]))
       = [ErrTransport ''timeout'']
   \<and> saved_LastSync (sync_pass ex_marshal ex_unmarshal ex_model (time_Unix 5000)) = 0
   \<and> saved_LastSync
        (sync_pass ex_marshal ex_unmarshal
           (ex_model\<lparr>apiClient := Some (ex_client_accepting\<lparr>SyncNotes_answer :=
                         \<lambda>calls since. Inl (ErrTransport ''timeout'')\<rparr>),
                      m_db := ex_empty_db\<rparr>) (time_Unix 5000)) = 0
   \<and> saved_LastSync
        (sync_pass ex_marshal ex_unmarshal
           (ex_model\<lparr>apiClient := Some ex_client_accepting, m_db := ex_empty_db\<rparr>)
           (time_Unix 5000)) = 5000"
  using C2_checkpoint_needs_no_error [where marshal = ex_marshal and unmarshal = ex_unmarshal and m = ex_model
      and now = "time_Unix 5000" and client = ex_client_refusing
      and ns = "[scan_Note ex_unmarshal (ex_pending_row 1 None True)]"
      and n = "scan_Note ex_unmarshal (ex_pending_row 2 (Some ''s2'') True)"
      and ms = "[scan_Note ex_unmarshal (ex_pending_row 3 None False)]"]
    C2_checkpoint_needs_no_error [where marshal = ex_marshal and unmarshal = ex_unmarshal
      and m = "ex_model\<lparr>apiClient := Some (ex_client_accepting\<lparr>SyncNotes_answer :=
                         \<lambda>calls since. Inl (ErrTransport ''timeout'')\<rparr>),
                      m_db := ex_empty_db\<rparr>"
      and now = "time_Unix 5000"
      and client = "ex_client_accepting\<lparr>SyncNotes_answer :=
                         \<lambda>calls since. Inl (ErrTransport ''timeout'')\<rparr>"]
    C2_checkpoint_needs_no_error [where marshal = ex_marshal and unmarshal = ex_unmarshal
      and m = "ex_model\<lparr>apiClient := Some ex_client_accepting, m_db := ex_empty_db\<rparr>"
      and now = "time_Unix 5000" and client = ex_client_accepting]
  by (simp add: ex_model_def ex_client_refusing_def ex_client_accepting_def ex_pending_db_def
      ex_pending_row_def ex_empty_db_def GetPendingNotes_def scan_Note_def refusal_def
      note_calls_def IsAuthenticated_def Let_def)

subsection \<open>The upload phase\<close>




















subsection \<open>Search\<close>

lemma of_char_nat_values:
  "(of_char CHR ''%'' :: nat) = 37" "(of_char CHR ''_'' :: nat) = 95"
  "(of_char (CHR 0x00) :: nat) = 0" "(of_char (CHR 0x22) :: nat) = 34"
  by simp_all

lemma of_char_eq_wild:
  "(of_char b :: nat) = 37 \<longleftrightarrow> b = CHR ''%''" "(of_char b :: nat) = 95 \<longleftrightarrow> b = CHR ''_''"
  using of_char_eq_iff[of b "CHR ''%''", where ?'a = nat]
        of_char_eq_iff[of b "CHR ''_''", where ?'a = nat]
  by (simp_all only: of_char_nat_values)

lemma utf8_replace_ge: "128 \<le> utf8_replace c"
  by (simp add: utf8_replace_def)

lemma utf8_read_low:
  "x \<in> set (utf8_read acc z) \<Longrightarrow> x < 128 \<Longrightarrow> \<exists>b\<in>set z. of_char b = x"
proof (induction acc z rule: utf8_read.induct)
  case 1
  then show ?case by simp
next
  case (2 c)
  then show ?case using utf8_replace_ge[of c] by simp
next
  case (3 b z)
  then show ?case by (auto split: if_splits)
next
  case (4 c b z)
  then show ?case using utf8_replace_ge[of c] by (auto split: if_splits)
qed

lemma utf8_read_snoc:
  "(of_char b :: nat) < 128 \<Longrightarrow>
     utf8_read acc (z @ b # z') = utf8_read acc z @ of_char b # utf8_read None z'"
proof (induction acc z rule: utf8_read.induct)
  case 1
  then show ?case by simp
next
  case (2 c)
  then show ?case by simp
next
  case (3 b' z)
  then show ?case by simp
next
  case (4 c b' z)
  then show ?case by simp
qed

lemma c_string_plain: "CHR 0x00 \<notin> set z \<Longrightarrow> c_string z = z"
  by (auto simp: c_string_def takeWhile_eq_all_conv)

lemma plain_characters:
  assumes "plain q"
  shows "utf8_read None (c_string (''%'' @ q @ ''%'')) = 37 # utf8_read None q @ [37]"
    and "37 \<notin> set (utf8_read None q)" and "95 \<notin> set (utf8_read None q)"
    and "c_string q = q"
proof -
  have nul: "CHR 0x00 \<notin> set (CHR ''%'' # q @ [CHR ''%''])"
    using assms by (simp add: plain_def)
  have "utf8_read None (q @ CHR ''%'' # []) = utf8_read None q @ of_char CHR ''%'' # utf8_read None []"
    by (rule utf8_read_snoc) simp
  then show "utf8_read None (c_string (''%'' @ q @ ''%'')) = 37 # utf8_read None q @ [37]"
    using c_string_plain[OF nul] by simp
  show "37 \<notin> set (utf8_read None q)"
    using utf8_read_low[of 37 None q] assms by (auto simp: plain_def of_char_eq_wild)
  show "95 \<notin> set (utf8_read None q)"
    using utf8_read_low[of 95 None q] assms by (auto simp: plain_def of_char_eq_wild)
  show "c_string q = q"
    using assms by (simp add: plain_def c_string_plain)
qed

lemma character_match:
  "(c = c2 \<or> (sqlite3Tolower c = sqlite3Tolower c2 \<and> c < 0x80 \<and> c2 < 0x80))
     \<longleftrightarrow> sqlite3Tolower c = sqlite3Tolower c2"
  by (auto simp: sqlite3Tolower_def split: if_splits)

lemma patternCompare_percent: "patternCompare [37] s"
  by (induction s) auto

lemma patternCompare_prefix:
  "37 \<notin> set p \<Longrightarrow> 95 \<notin> set p \<Longrightarrow>
     patternCompare (p @ [37]) s \<longleftrightarrow> prefix (map sqlite3Tolower p) (map sqlite3Tolower s)"
proof (induction p arbitrary: s)
  case Nil
  then show ?case by (simp add: patternCompare_percent)
next
  case (Cons c p)
  then have c: "c \<noteq> 37" "c \<noteq> 95" and p: "37 \<notin> set p" "95 \<notin> set p"
    by auto
  show ?case
  proof (cases s)
    case Nil
    with c show ?thesis by simp
  next
    case (Cons c2 cs)
    have "patternCompare ((c # p) @ [37]) (c2 # cs)
            \<longleftrightarrow> (c = c2 \<or> (sqlite3Tolower c = sqlite3Tolower c2 \<and> c < 0x80 \<and> c2 < 0x80))
                 \<and> patternCompare (p @ [37]) cs"
      using c by simp
    also have "\<dots> \<longleftrightarrow> sqlite3Tolower c = sqlite3Tolower c2
                       \<and> prefix (map sqlite3Tolower p) (map sqlite3Tolower cs)"
      unfolding character_match using Cons.IH[OF p, of cs] by simp
    finally show ?thesis
      using Cons by simp
  qed
qed

lemma patternCompare_contains:
  assumes "37 \<notin> set p" "95 \<notin> set p"
  shows "patternCompare (37 # p @ [37]) s \<longleftrightarrow> sublist (map sqlite3Tolower p) (map sqlite3Tolower s)"
proof (induction s)
  case Nil
  have "patternCompare (37 # p @ [37]) [] \<longleftrightarrow> patternCompare (p @ [37]) []"
    by simp
  also have "\<dots> \<longleftrightarrow> p = []"
    using patternCompare_prefix[OF assms, of "[]"] by simp
  finally show ?case
    by simp
next
  case (Cons c cs)
  have "patternCompare (37 # p @ [37]) (c # cs)
          \<longleftrightarrow> patternCompare (p @ [37]) (c # cs) \<or> patternCompare (37 # p @ [37]) cs"
    by simp
  also have "\<dots> \<longleftrightarrow> prefix (map sqlite3Tolower p) (map sqlite3Tolower (c # cs))
                    \<or> sublist (map sqlite3Tolower p) (map sqlite3Tolower cs)"
    using patternCompare_prefix[OF assms, of "c # cs"] Cons.IH by simp
  also have "\<dots> \<longleftrightarrow> sublist (map sqlite3Tolower p) (map sqlite3Tolower (c # cs))"
    by (simp add: sublist_Cons_right)
  finally show ?case .
qed

lemma LIKE_contains:
  assumes "plain q"
  shows "LIKE (''%'' @ q @ ''%'') s \<longleftrightarrow> ci_contains q s"
  unfolding LIKE_def ci_contains_def plain_characters(1)[OF assms] plain_characters(4)[OF assms]
  by (rule patternCompare_contains[OF plain_characters(2,3)[OF assms]])

lemma plain_quoted: "plain tag \<Longrightarrow> plain ([CHR 0x22] @ tag @ [CHR 0x22])"
  by (simp add: plain_def)

lemma like_matches_ci:
  assumes "plain query" "list_all plain tgs"
  shows "like_matches query tgs r = ci_search_matches query tgs r"
proof -
  have tag: "LIKE (''%'' @ [CHR 0x22] @ tag @ [CHR 0x22] @ ''%'') t
               \<longleftrightarrow> ci_contains ([CHR 0x22] @ tag @ [CHR 0x22]) t" if "tag \<in> set tgs" for tag t
    using LIKE_contains[OF plain_quoted, of tag t] that assms(2)
    by (simp add: list_all_iff)
  have tags: "list_all (\<lambda>tag. case n_tags r of None \<Rightarrow> False
                          | Some t \<Rightarrow> LIKE (''%'' @ [CHR 0x22] @ tag @ [CHR 0x22] @ ''%'') t) tgs
            = list_all (\<lambda>tag. case n_tags r of None \<Rightarrow> False
                          | Some t \<Rightarrow> ci_contains ([CHR 0x22] @ tag @ [CHR 0x22]) t) tgs"
    unfolding list_all_iff using tag by (auto split: option.splits)
  have empty: "ci_contains [] s" for s
    by (simp add: ci_contains_def c_string_def)
  show ?thesis
    unfolding like_matches_def ci_search_matches_def tags
    using LIKE_contains[OF assms(1)] empty by auto
qed

lemma sql_AND_tags:
  "list_all (\<lambda>tag. length tag + 4 \<le> SQLITE_MAX_LIKE_PATTERN_LENGTH) tgs \<Longrightarrow>
     sql_AND (map (\<lambda>tag. likeFunc (''%'' @ [CHR 0x22] @ tag @ [CHR 0x22] @ ''%'') t) tgs)
       = Inr (list_all (\<lambda>tag. case t of None \<Rightarrow> False
                          | Some t \<Rightarrow> LIKE (''%'' @ [CHR 0x22] @ tag @ [CHR 0x22] @ ''%'') t) tgs)"
  by (induction tgs) (auto simp: likeFunc_def split: option.splits)

lemma sql_AND_append:
  "sql_AND (xs @ ys) =
     (case sql_AND xs of Inl e \<Rightarrow> Inl e | Inr b \<Rightarrow> if b then sql_AND ys else Inr False)"
  by (induction xs) (auto split: sum.splits)

lemma search_where_within_limit:
  assumes "within_limit query tgs"
  shows "search_where query tgs r = Inr (like_matches query tgs r)"
proof -
  have q: "\<not> length (''%'' @ query @ ''%'') > SQLITE_MAX_LIKE_PATTERN_LENGTH"
    using assms by (simp add: within_limit_def)
  have t: "sql_AND (map (\<lambda>tag. likeFunc (''%'' @ [CHR 0x22] @ tag @ [CHR 0x22] @ ''%'') (n_tags r)) tgs)
       = Inr (list_all (\<lambda>tag. case n_tags r of None \<Rightarrow> False
                          | Some t \<Rightarrow> LIKE (''%'' @ [CHR 0x22] @ tag @ [CHR 0x22] @ ''%'') t) tgs)"
    using assms by (intro sql_AND_tags) (simp add: within_limit_def)
  show ?thesis
    unfolding search_where_def sql_AND_append t
    using q by (simp add: like_matches_def likeFunc_def sql_OR_def Let_def)
qed

lemma rows_Next_filter:
  "(\<And>r. w r = Inr (P r)) \<Longrightarrow> rows_Next w rows = Inr (filter P rows)"
  by (induction rows) auto







lemma ex_characters:
  "utf8_read None ''hello'' = [104, 101, 108, 108, 111]"
  "utf8_read None ''Hello'' = [72, 101, 108, 108, 111]"
  "utf8_read None ''body'' = [98, 111, 100, 121]"
  "utf8_read None ''hello again'' = [104, 101, 108, 108, 111, 32, 97, 103, 97, 105, 110]"
  by simp_all

lemma ex_hello:
  "ci_contains ''hello'' ''Hello''"
  "ci_contains ''hello'' ''hello again''"
  "\<not> sublist ''hello'' ''Hello''"
  "\<not> sublist ''hello'' ''body''"
  by (simp_all add: ci_contains_def c_string_def ex_characters sqlite3Tolower_def
      sublist_Cons_right)

lemma ex_within_limit: "within_limit ''hello'' []"
  by (simp add: within_limit_def SQLITE_MAX_LIKE_PATTERN_LENGTH_def)

lemma ex_plain: "plain ''hello''"
  by (simp add: plain_def)

lemma ex_like_matches:
  "like_matches ''hello'' [] ex_note" "like_matches ''hello'' [] ex_restored_note"
  using like_matches_ci[OF ex_plain, of "[]" ex_note]
    like_matches_ci[OF ex_plain, of "[]" ex_restored_note]
  by (simp_all add: ci_search_matches_def ex_note_def ex_restored_note_def ex_hello)

lemma SearchNotes_within_limit:
  assumes "within_limit query tgs"
  shows "SearchNotes f d query tgs =
           Inr (map scan_NoteListItem
                  (filter (like_matches query tgs) (order_by_updated_at_desc f (t_notes d))))"
proof -
  have "rows_Next (search_where query tgs) rows = Inr (filter (like_matches query tgs) rows)"
    for rows
    by (rule rows_Next_filter) (rule search_where_within_limit[OF assms])
  then show ?thesis
    by (simp add: SearchNotes_def)
qed








text \<open>
  The order of the result is the order of the stored text, not of the instants. Note 1
  was written at 100 seconds in a location two hours east of UTC, note 2 was stamped
  at 200 seconds by \<open>CURRENT_TIMESTAMP\<close>: the text of note 1 is the greater, and the older
  note comes first.
\<close>

lemma search_orders_stored_text:
  "SearchNotes ex_updated_at_text ex_two_formats_db ''hello'' []
     = Inr [scan_NoteListItem ex_note, scan_NoteListItem ex_restored_note]
   \<and> item_UpdatedAt (scan_NoteListItem ex_note) = time_Unix 100
   \<and> item_UpdatedAt (scan_NoteListItem ex_restored_note) = time_Unix 200"
proof -
  have o: "order_by_updated_at_desc ex_updated_at_text [ex_note, ex_restored_note]
             = [ex_note, ex_restored_note]"
    by (simp add: order_by_updated_at_desc_def ex_updated_at_text_def ex_note_def
        ex_restored_note_def less_eq_prod_def)
  show ?thesis
    using ex_like_matches
    by (simp add: SearchNotes_within_limit[OF ex_within_limit] ex_two_formats_db_def o)
       (simp add: scan_NoteListItem_def ex_note_def ex_restored_note_def CURRENT_TIMESTAMP_def)
qed



subsection \<open>Saving a version\<close>

lemma insort_key_desc_snoc:
  fixes f :: "'a \<Rightarrow> int"
  shows "\<forall>y\<in>set ys. f x < f y \<Longrightarrow> insort_key (\<lambda>v. - f v) x ys = ys @ [x]"
  by (induction ys) auto

lemma sort_key_desc_rev:
  fixes f :: "'a \<Rightarrow> int"
  shows "sorted_wrt (<) (map f xs) \<Longrightarrow> sort_key (\<lambda>v. - f v) xs = rev xs"
  by (induction xs) (auto simp: insort_key_desc_snoc)

lemma fold_max_upto: "fold max [1..int n] (0::int) = int n"
proof (induction n)
  case 0
  then show ?case by simp
next
  case (Suc n)
  have "[1..int (Suc n)] = [1..int n] @ [int n + 1]"
    using upto_rec2[of 1 "int (Suc n)"] by (simp add: add.commute)
  with Suc show ?case by simp
qed

lemma max_version_num_upto:
  assumes "map v_version_num vs = [1..int n]"
  shows "max_version_num vs = int n"
proof (cases n)
  case 0
  then show ?thesis
    using assms by (simp add: max_version_num_def)
next
  case (Suc k)
  have up: "[1..int n] = 1 # [2..int n]"
    using Suc upto_rec1[of 1 "int n"] by simp
  have "fold max [2..int n] 1 = fold max [1..int n] 0"
    by (simp add: up)
  then show ?thesis
    using assms up fold_max_upto[of n] by (simp add: max_version_num_def)
qed

lemma int64_small: "0 \<le> x \<Longrightarrow> x < 2 ^ 63 \<Longrightarrow> int64 x = x"
  by (simp add: int64_def)

lemma lastHash_last:
  assumes "sorted_wrt (<) (map v_version_num vs)"
  shows "(case order_by_version_num_desc vs of [] \<Rightarrow> None | v # _ \<Rightarrow> Some (v_hash v))
           = (if vs = [] then None else Some (v_hash (last vs)))"
proof -
  have "order_by_version_num_desc vs = rev vs"
    unfolding order_by_version_num_desc_def by (rule sort_key_desc_rev[OF assms])
  then show ?thesis
    by (cases vs rule: rev_cases) auto
qed

lemma SaveNoteVersion_noop:
  assumes "sorted_wrt (<) (map v_version_num (versions_of d noteID))"
    and "versions_of d noteID \<noteq> []"
    and "v_hash (last (versions_of d noteID)) = Some (take 12 (sha256_hex cnt))"
  shows "SaveNoteVersion sha256_hex marshal d now noteID ttl cnt tgs = d"
  using assms by (simp add: SaveNoteVersion_def Let_def lastHash_last)

lemma SaveNoteVersion_insert:
  assumes "map v_version_num (versions_of d noteID) = [1..int n]" "int n < 2 ^ 63 - 1"
    and "\<not> (versions_of d noteID \<noteq> []
            \<and> v_hash (last (versions_of d noteID)) = Some (take 12 (sha256_hex cnt)))"
  shows "SaveNoteVersion sha256_hex marshal d now noteID ttl cnt tgs =
           d\<lparr>t_note_versions := t_note_versions d @
                [\<lparr>v_id = seq_note_versions d + 1, v_note_id = noteID, v_title = ttl,
                  v_content = cnt, v_tags = Some (marshal tgs),
                  v_hash = Some (take 12 (sha256_hex cnt)), v_version_num = int n + 1,
                  v_created_at = CURRENT_TIMESTAMP now\<rparr>],
              seq_note_versions := seq_note_versions d + 1\<rparr>"
proof -
  have sorted: "sorted_wrt (<) (map v_version_num (versions_of d noteID))"
    using assms(1) by simp
  have "int64 (int n + 1) = int n + 1"
    using assms(2) by (intro int64_small) auto
  then show ?thesis
    using assms(3) max_version_num_upto[OF assms(1)]
    by (auto simp: SaveNoteVersion_def Let_def lastHash_last[OF sorted])
qed

lemma upto_snoc: "[1..int n + 1] = [1..int n] @ [int n + 1]"
  using upto_rec2[of 1 "int n + 1"] by simp
lemma versions_of_other:
  "other \<noteq> noteID \<Longrightarrow>
     versions_of (SaveNoteVersion sha256_hex marshal d now noteID ttl cnt tgs) other
       = versions_of d other"
  by (simp add: SaveNoteVersion_def versions_of_def Let_def)

lemma ex_saved_rows:
  "t_note_versions ex_saved_db =
     [\<lparr>v_id = 1, v_note_id = 1, v_title = ''T'', v_content = ''c1'', v_tags = Some ''[]'',
       v_hash = Some ''c10123456789'', v_version_num = 1, v_created_at = time_Unix 10\<rparr>]"
  by (simp add: ex_saved_db_def ex_empty_db_def SaveNoteVersion_def versions_of_def
      order_by_version_num_desc_def max_version_num_def int64_def ex_sha256_hex_def
      ex_marshal_def CURRENT_TIMESTAMP_def Let_def)

text \<open>
  Claim C5 as stated fails in its last part: after the content \<open>c1\<close> has been saved
  once for a note, two more calls in a row with that same content write no row at all,
  not exactly one.
\<close>

theorem C5_counterexample:
  "t_note_versions
     (SaveNoteVersion ex_sha256_hex ex_marshal
        (SaveNoteVersion ex_sha256_hex ex_marshal ex_saved_db (time_Unix 20) 1 ''T'' ''c1'' [])
        (time_Unix 30) 1 ''T'' ''c1'' [])
   = t_note_versions ex_saved_db"
proof -
  have noop: "SaveNoteVersion ex_sha256_hex ex_marshal ex_saved_db now 1 ''T'' ''c1'' [] = ex_saved_db"
    for now
    by (rule SaveNoteVersion_noop)
       (simp_all add: versions_of_def ex_saved_rows ex_sha256_hex_def)
  show ?thesis
    by (simp add: noop)
qed

text \<open>
  Claim C5, amended. For a note whose stored versions are numbered \<open>1, ..., n\<close> in the
  order they were written (as they are from an empty table on), with \<open>n\<close> below the
  range of a 64-bit integer: the hash is the first 12 characters of the digest text; if
  the note has a version and the hash of its most recent one (the last, which has the
  greatest number) is this hash, the call changes nothing; otherwise it appends one row
  carrying this hash and the number \<open>n + 1\<close>, one more than the greatest existing
  number (\<open>0\<close> when there is none), so that the note's numbers are \<open>1, ..., n + 1\<close>. The
  versions of every other note are as before. A second call in a row with the same
  content writes no row, whatever its title, tags and clock: two calls in a row write
  one row when the first one writes, and none when the content was already the most
  recent version.
\<close>

theorem C5_save_version:
  assumes "map v_version_num (versions_of d noteID) = [1..int n]" and "int n < 2 ^ 63 - 1"
  shows
    "max_version_num (versions_of d noteID) = int n
     \<and> (if versions_of d noteID \<noteq> []
            \<and> v_hash (last (versions_of d noteID)) = Some (take 12 (sha256_hex cnt))
         then SaveNoteVersion sha256_hex marshal d now noteID ttl cnt tgs = d
         else t_note_versions (SaveNoteVersion sha256_hex marshal d now noteID ttl cnt tgs) =
                t_note_versions d @
                  [\<lparr>v_id = seq_note_versions d + 1, v_note_id = noteID, v_title = ttl,
                    v_content = cnt, v_tags = Some (marshal tgs),
                    v_hash = Some (take 12 (sha256_hex cnt)), v_version_num = int n + 1,
                    v_created_at = CURRENT_TIMESTAMP now\<rparr>]
              \<and> map v_version_num
                    (versions_of (SaveNoteVersion sha256_hex marshal d now noteID ttl cnt tgs) noteID)
                  = [1..int n + 1])
     \<and> (\<forall>other. other \<noteq> noteID \<longrightarrow>
           versions_of (SaveNoteVersion sha256_hex marshal d now noteID ttl cnt tgs) other
             = versions_of d other)
     \<and> SaveNoteVersion sha256_hex marshal
           (SaveNoteVersion sha256_hex marshal d now noteID ttl cnt tgs) now' noteID ttl' cnt tgs'
         = SaveNoteVersion sha256_hex marshal d now noteID ttl cnt tgs"
proof -
  let ?h = "take 12 (sha256_hex cnt)"
  let ?d' = "SaveNoteVersion sha256_hex marshal d now noteID ttl cnt tgs"
  let ?row = "\<lparr>v_id = seq_note_versions d + 1, v_note_id = noteID, v_title = ttl,
                    v_content = cnt, v_tags = Some (marshal tgs),
                    v_hash = Some ?h, v_version_num = int n + 1,
                    v_created_at = CURRENT_TIMESTAMP now\<rparr>"
  have sorted: "sorted_wrt (<) (map v_version_num (versions_of d noteID))"
    using assms(1) by simp
  have mx: "max_version_num (versions_of d noteID) = int n"
    by (rule max_version_num_upto[OF assms(1)])
  have others: "\<forall>other. other \<noteq> noteID \<longrightarrow> versions_of ?d' other = versions_of d other"
    by (simp add: versions_of_other)
  show ?thesis
  proof (cases "versions_of d noteID \<noteq> [] \<and> v_hash (last (versions_of d noteID)) = Some ?h")
    case True
    then have same: "?d' = d"
      using SaveNoteVersion_noop[OF sorted] by simp
    have again: "SaveNoteVersion sha256_hex marshal d now' noteID ttl' cnt tgs' = d"
      using True SaveNoteVersion_noop[OF sorted] by simp
    show ?thesis
      using True mx others same again by simp
  next
    case False
    have ins: "?d' = d\<lparr>t_note_versions := t_note_versions d @ [?row],
                        seq_note_versions := seq_note_versions d + 1\<rparr>"
      by (rule SaveNoteVersion_insert[where sha256_hex = sha256_hex and cnt = cnt, OF assms False])
    have vs': "versions_of ?d' noteID = versions_of d noteID @ [?row]"
      by (simp add: ins versions_of_def)
    have nums': "map v_version_num (versions_of ?d' noteID) = [1..int n + 1]"
      by (simp add: vs' assms(1) upto_snoc)
    have "sorted_wrt (<) (map v_version_num (versions_of ?d' noteID))"
      unfolding nums' by simp
    moreover have "versions_of ?d' noteID \<noteq> []" "v_hash (last (versions_of ?d' noteID)) = Some ?h"
      by (simp_all add: vs')
    ultimately have again: "SaveNoteVersion sha256_hex marshal ?d' now' noteID ttl' cnt tgs' = ?d'"
      by (rule SaveNoteVersion_noop)
    have rows: "t_note_versions ?d' = t_note_versions d @ [?row]"
      by (simp add: ins)
    show ?thesis
      using False mx others again rows nums' by auto
  qed
qed

theorem C5_save_version_witness:
  "map v_version_num (versions_of ex_empty_db 1) = [1..int 0] \<and> int 0 < 2 ^ 63 - 1
   \<and> map v_version_num (t_note_versions ex_saved_db) = [1]
   \<and> SaveNoteVersion ex_sha256_hex ex_marshal ex_saved_db (time_Unix 20) 1 ''T'' ''c1'' []
       = ex_saved_db
   \<and> map v_version_num (versions_of ex_saved_db 1) = [1..int 1]
   \<and> map v_version_num
        (t_note_versions
           (SaveNoteVersion ex_sha256_hex ex_marshal ex_saved_db (time_Unix 20) 1 ''T'' ''c2'' []))
       = [1, 2]"
proof -
  have e: "map v_version_num (versions_of ex_empty_db 1) = [1..int 0]" "int 0 < 2 ^ 63 - 1"
    by (simp_all add: ex_empty_db_def versions_of_def)
  have s: "map v_version_num (versions_of ex_saved_db 1) = [1..int 1]" "int 1 < 2 ^ 63 - 1"
    by (simp_all add: ex_saved_rows versions_of_def)
  show ?thesis
    using e s
      C5_save_version [OF e, where sha256_hex = ex_sha256_hex and marshal = ex_marshal
        and now = "time_Unix 10" and ttl = "''T''" and cnt = "''c1''" and tgs = "[]"
        and now' = "time_Unix 20" and ttl' = "''T''" and tgs' = "[]"]
      C5_save_version [OF s, where sha256_hex = ex_sha256_hex and marshal = ex_marshal
        and now = "time_Unix 20" and ttl = "''T''" and cnt = "''c2''" and tgs = "[]"]
    by (simp add: ex_saved_rows versions_of_def ex_sha256_hex_def ex_saved_db_def[symmetric])
qed

end
